theory Spec2Isabelle
  imports Main "HOL-Library.Sublist" "HOL-Library.Multiset" "HOL-Library.Word"
begin

section \<open>Strings\<close>

text \<open>
  Go strings are byte sequences; they are modelled as \<open>string\<close> (a list of 8-bit
  characters). An error value is modelled by its message. The functions of Go's
  \<open>strings\<close> package that the tools call are given by their meaning on bytes.
\<close>

type_synonym error = string

definition HasPrefix :: "string \<Rightarrow> string \<Rightarrow> bool" where
  "HasPrefix s p = prefix p s"

definition Contains :: "string \<Rightarrow> string \<Rightarrow> bool" where
  "Contains s substr = sublist substr s"

section \<open>Mailbox enumeration (duplicates tool, \<open>listMailboxes\<close>)\<close>

text \<open>
  The manager of the duplicates tool, without its session handle: the session is
  represented by what its calls deliver. \<open>connectIMAP\<close> fills \<open>excludedFolders\<close> with a
  fixed list and \<open>targetFolder\<close> with the environment variable \<open>TARGET_FOLDER\<close>.
\<close>

record IMAPManager =
  targetFolder :: string
  excludedFolders :: "string list"

text \<open>The two bytes of the UTF-8 encoding of e-acute, used in one excluded name.\<close>

definition e_acute :: string where
  "e_acute = [char_of (0xC3 :: nat), char_of (0xA9 :: nat)]"

definition connectIMAP_excludedFolders :: "string list" where
  "connectIMAP_excludedFolders =
    [''trash'', ''corbeille'', ''deleted'', ''deleted messages'',
     ''deleted items'', ''elements supprimes'',
     e_acute @ ''l'' @ e_acute @ ''ments supprim'' @ e_acute @ ''s'',
     ''bin'', ''junk'', ''spam'', ''[gmail]/trash'',
     ''[google mail]/trash'', ''[gmail]/corbeille'',
     ''[gmail]/spam'', ''[gmail]/junk'']"

text \<open>
  \<open>isExcludedFolder\<close>: the name is lower-cased once, then the excluded names are tried in
  order and the first one contained in it answers \<open>true\<close>. \<open>strings.ToLower\<close> is a
  parameter (\<open>ToLower\<close>): it is Unicode-aware library code.
\<close>

fun isExcludedFolder_loop :: "string \<Rightarrow> string list \<Rightarrow> bool" where
  "isExcludedFolder_loop nameLower [] = False"
| "isExcludedFolder_loop nameLower (excluded # rest) =
     (if Contains nameLower excluded then True else isExcludedFolder_loop nameLower rest)"

definition isExcludedFolder :: "(string \<Rightarrow> string) \<Rightarrow> IMAPManager \<Rightarrow> string \<Rightarrow> bool" where
  "isExcludedFolder ToLower im name =
     (let nameLower = ToLower name in isExcludedFolder_loop nameLower (excludedFolders im))"

text \<open>
  The \<open>List\<close> call streams folder names over a channel and then reports its completion
  status on a second channel: \<open>listed\<close> are the names in the order delivered, \<open>status\<close> is
  the status (\<open>None\<close> for success).
\<close>

record ListResult =
  listed :: "string list"
  status :: "error option"

text \<open>The body of the \<open>for m := range mailboxes\<close> loop, with \<open>boxes\<close> as accumulator.\<close>

fun listMailboxes_loop ::
  "(string \<Rightarrow> string) \<Rightarrow> IMAPManager \<Rightarrow> string list \<Rightarrow> string list \<Rightarrow> string list" where
  "listMailboxes_loop ToLower im boxes [] = boxes"
| "listMailboxes_loop ToLower im boxes (m # ms) =
     (if isExcludedFolder ToLower im m then listMailboxes_loop ToLower im boxes ms
      else if targetFolder im \<noteq> [] then
        (if HasPrefix m (targetFolder im) then listMailboxes_loop ToLower im (boxes @ [m]) ms
         else listMailboxes_loop ToLower im boxes ms)
      else listMailboxes_loop ToLower im (boxes @ [m]) ms)"

definition listMailboxes ::
  "(string \<Rightarrow> string) \<Rightarrow> IMAPManager \<Rightarrow> ListResult \<Rightarrow> error + string list" where
  "listMailboxes ToLower im r =
     (let boxes = listMailboxes_loop ToLower im [] (listed r) in
      case status r of
        Some err \<Rightarrow> Inl err
      | None \<Rightarrow>
          if targetFolder im \<noteq> [] \<and> boxes = []
          then Inl (''no mailboxes found matching target folder: '' @ targetFolder im)
          else Inr boxes)"

text \<open>
  A lower-casing of ASCII letters, used to run the enumerator on concrete names. On
  ASCII-only input this is what \<open>strings.ToLower\<close> computes.
\<close>

definition ascii_lower :: "char \<Rightarrow> char" where
  "ascii_lower c =
     (if 65 \<le> (of_char c :: nat) \<and> (of_char c :: nat) \<le> 90
      then char_of ((of_char c :: nat) + 32) else c)"

definition ToLower_ascii :: "string \<Rightarrow> string" where
  "ToLower_ascii s = map ascii_lower s"

subsection \<open>What the enumerator returns\<close>

text \<open>The two predicates a listed name has to pass.\<close>

definition passes_exclusion :: "(string \<Rightarrow> string) \<Rightarrow> IMAPManager \<Rightarrow> string \<Rightarrow> bool" where
  "passes_exclusion ToLower im name =
     (\<not> list_ex (\<lambda>excluded. Contains (ToLower name) excluded) (excludedFolders im))"

definition passes_prefix :: "IMAPManager \<Rightarrow> string \<Rightarrow> bool" where
  "passes_prefix im name = (if targetFolder im = [] then True else HasPrefix name (targetFolder im))"

lemma isExcludedFolder_loop_ex:
  "isExcludedFolder_loop n xs = list_ex (\<lambda>excluded. Contains n excluded) xs"
  by (induction xs) simp_all

lemma isExcludedFolder_iff:
  "isExcludedFolder ToLower im name = (\<not> passes_exclusion ToLower im name)"
  by (simp add: isExcludedFolder_def passes_exclusion_def isExcludedFolder_loop_ex)

lemma listMailboxes_loop_filter:
  "listMailboxes_loop ToLower im boxes ms =
     boxes @ filter (\<lambda>n. passes_exclusion ToLower im n \<and> passes_prefix im n) ms"
  by (induction ms arbitrary: boxes)
     (simp_all add: isExcludedFolder_iff passes_prefix_def)

text \<open>
  Claim C7. When the listing itself completes without error, \<open>listMailboxes\<close> returns
  exactly the listed names, in the order listed, that contain no excluded name after
  lower-casing and that start with the target folder when one is configured; with a
  target folder configured and no name left it returns the error
  "no mailboxes found matching target folder", and with no target folder an empty
  result is returned as such.
\<close>

theorem listMailboxes_filters:
  "status r = None \<Longrightarrow>
   listMailboxes ToLower im r =
     (let kept = filter (\<lambda>n. passes_exclusion ToLower im n \<and> passes_prefix im n) (listed r) in
      if targetFolder im \<noteq> [] \<and> kept = []
      then Inl (''no mailboxes found matching target folder: '' @ targetFolder im)
      else Inr kept)"
  by (simp add: listMailboxes_def listMailboxes_loop_filter Let_def)

theorem listMailboxes_filters_witness:
  "status \<lparr>listed = [''INBOX'', ''Trash'', ''Work/A'', ''[Gmail]/Spam'', ''Work/JUNK mail'',
                     ''Work/B''], status = None\<rparr> = None \<and>
   listMailboxes ToLower_ascii
     \<lparr>targetFolder = ''Work'', excludedFolders = connectIMAP_excludedFolders\<rparr>
     \<lparr>listed = [''INBOX'', ''Trash'', ''Work/A'', ''[Gmail]/Spam'', ''Work/JUNK mail'',
                ''Work/B''], status = None\<rparr>
     = Inr [''Work/A'', ''Work/B''] \<and>
   listMailboxes ToLower_ascii
     \<lparr>targetFolder = ''Zzz'', excludedFolders = connectIMAP_excludedFolders\<rparr>
     \<lparr>listed = [''INBOX'', ''Trash'', ''Work/A''], status = None\<rparr>
     = Inl ''no mailboxes found matching target folder: Zzz'' \<and>
   listMailboxes ToLower_ascii
     \<lparr>targetFolder = [], excludedFolders = connectIMAP_excludedFolders\<rparr>
     \<lparr>listed = [''Trash''], status = None\<rparr>
     = Inr []"
proof -
  let ?ex = connectIMAP_excludedFolders
  let ?r1 = "\<lparr>listed = [''INBOX'', ''Trash'', ''Work/A'', ''[Gmail]/Spam'', ''Work/JUNK mail'',
                        ''Work/B''], status = None\<rparr>"
  let ?r2 = "\<lparr>listed = [''INBOX'', ''Trash'', ''Work/A''], status = None\<rparr>"
  let ?r3 = "\<lparr>listed = [''Trash''], status = None\<rparr>"
  let ?keep = "\<lambda>im n. passes_exclusion ToLower_ascii im n \<and> passes_prefix im n"
  have f1: "filter (?keep \<lparr>targetFolder = ''Work'', excludedFolders = ?ex\<rparr>) (listed ?r1)
              = [''Work/A'', ''Work/B'']"
    by code_simp
  have f2: "filter (?keep \<lparr>targetFolder = ''Zzz'', excludedFolders = ?ex\<rparr>) (listed ?r2) = []"
    by code_simp
  have f3: "filter (?keep \<lparr>targetFolder = [], excludedFolders = ?ex\<rparr>) (listed ?r3) = []"
    by code_simp
  have s1: "status ?r1 = None" and s2: "status ?r2 = None" and s3: "status ?r3 = None"
    by simp_all
  show ?thesis
    using listMailboxes_filters [OF s1, of ToLower_ascii "\<lparr>targetFolder = ''Work'', excludedFolders = ?ex\<rparr>"]
          listMailboxes_filters [OF s2, of ToLower_ascii "\<lparr>targetFolder = ''Zzz'', excludedFolders = ?ex\<rparr>"]
          listMailboxes_filters [OF s3, of ToLower_ascii "\<lparr>targetFolder = [], excludedFolders = ?ex\<rparr>"]
          f1 f2 f3
    by (simp only: Let_def s1) simp
qed

section \<open>Duplicate grouping (\<open>findDuplicates\<close>)\<close>

text \<open>
  The repository holds two duplicates tools with the same pipeline. The one of
  \<open>manage-duplicates.go\<close> moves duplicates to the trash folder and fingerprints a
  message by its parsed content; the other one deletes duplicates and fingerprints the
  raw message. Functions of the second tool keep the source's names, those of
  \<open>manage-duplicates.go\<close> carry the suffix \<open>_trash\<close>.

  A scanned message. The record of \<open>manage-duplicates.go\<close> has no \<open>Content\<close> field; its
  functions below never read \<open>Content\<close>. \<open>Date\<close> is a \<open>time.Time\<close>, kept as a number.
\<close>

type_synonym uint32 = "32 word"

record EmailInfo =
  Mailbox :: string
  Uid :: uint32
  Subject :: string
  Date :: int
  Size :: uint32
  Hash :: string
  Content :: string

text \<open>
  A duplicate group; its field \<open>Hash\<close> is named \<open>GroupHash\<close> here, since \<open>Hash\<close> is the
  field of \<open>EmailInfo\<close>.
\<close>

record DuplicateGroup =
  Emails :: "EmailInfo list"
  GroupHash :: string

text \<open>
  \<open>hashMap\<close> is a Go map from fingerprint to the list of messages carrying it. It is
  modelled by its entries in the order the keys were first inserted.
  \<open>hashMap[h] = append(hashMap[h], email)\<close> extends the entry of \<open>h\<close> or creates it.
\<close>

fun hashMap_append :: "string \<Rightarrow> EmailInfo \<Rightarrow> (string \<times> EmailInfo list) list
    \<Rightarrow> (string \<times> EmailInfo list) list" where
  "hashMap_append h email [] = [(h, [email])]"
| "hashMap_append h email ((k, es) # m) =
     (if k = h then (k, es @ [email]) # m else (k, es) # hashMap_append h email m)"

text \<open>The first loop of \<open>manage-duplicates.go\<close>: every message goes to its bucket.\<close>

fun hashMap_trash :: "(string \<times> EmailInfo list) list \<Rightarrow> EmailInfo list
    \<Rightarrow> (string \<times> EmailInfo list) list" where
  "hashMap_trash m [] = m"
| "hashMap_trash m (email # emails) = hashMap_trash (hashMap_append (Hash email) email m) emails"

text \<open>The first loop of the second tool: a message with an empty \<open>Hash\<close> is passed over.\<close>

fun hashMap_of :: "(string \<times> EmailInfo list) list \<Rightarrow> EmailInfo list
    \<Rightarrow> (string \<times> EmailInfo list) list" where
  "hashMap_of m [] = m"
| "hashMap_of m (email # emails) =
     (if Hash email \<noteq> [] then hashMap_of (hashMap_append (Hash email) email m) emails
      else hashMap_of m emails)"

text \<open>
  The second loop ranges over the map and emits a group for every entry with more than
  one message.
\<close>

fun emit_groups :: "DuplicateGroup list \<Rightarrow> (string \<times> EmailInfo list) list \<Rightarrow> DuplicateGroup list" where
  "emit_groups groups [] = groups"
| "emit_groups groups ((hash, duplicates) # m) =
     (if length duplicates > 1
      then emit_groups (groups @ [\<lparr>Emails = duplicates, GroupHash = hash\<rparr>]) m
      else emit_groups groups m)"

text \<open>
  Go does not specify the order in which \<open>range\<close> visits the entries of a map, and it
  differs from run to run. The order is the parameter \<open>range_order\<close>: it receives the
  entries and returns them in the order visited.
\<close>

definition findDuplicates_trash ::
  "((string \<times> EmailInfo list) list \<Rightarrow> (string \<times> EmailInfo list) list)
    \<Rightarrow> EmailInfo list \<Rightarrow> DuplicateGroup list" where
  "findDuplicates_trash range_order emails =
     (let hashMap = hashMap_trash [] emails in emit_groups [] (range_order hashMap))"

definition findDuplicates ::
  "((string \<times> EmailInfo list) list \<Rightarrow> (string \<times> EmailInfo list) list)
    \<Rightarrow> EmailInfo list \<Rightarrow> DuplicateGroup list" where
  "findDuplicates range_order emails =
     (let hashMap = hashMap_of [] emails in emit_groups [] (range_order hashMap))"

subsection \<open>The buckets and the emitted groups\<close>

text \<open>\<open>bucket h emails\<close>: the messages of the input that carry fingerprint \<open>h\<close>, in input order.\<close>

definition bucket :: "string \<Rightarrow> EmailInfo list \<Rightarrow> EmailInfo list" where
  "bucket h emails = filter (\<lambda>e. Hash e = h) emails"

lemma map_of_hashMap_append:
  "map_of (hashMap_append h e m) =
     (map_of m)(h \<mapsto> (case map_of m h of None \<Rightarrow> [] | Some es \<Rightarrow> es) @ [e])"
  by (induction m) (auto simp: fun_eq_iff)

lemma keys_hashMap_append:
  "map fst (hashMap_append h e m) = (if h \<in> fst ` set m then map fst m else map fst m @ [h])"
  by (induction m) (force+)

lemma distinct_hashMap_append:
  "distinct (map fst m) \<Longrightarrow> distinct (map fst (hashMap_append h e m))"
  by (simp add: keys_hashMap_append)

text \<open>The buckets hold, for each fingerprint seen so far, the messages carrying it, in order.\<close>

definition buckets_of :: "(EmailInfo \<Rightarrow> bool) \<Rightarrow> (string \<times> EmailInfo list) list \<Rightarrow> EmailInfo list \<Rightarrow> bool" where
  "buckets_of P m xs =
     (distinct (map fst m) \<and>
      (\<forall>h. map_of m h = (if filter P (bucket h xs) = [] then None else Some (filter P (bucket h xs)))))"

lemma buckets_of_append:
  assumes "buckets_of P m xs" "P e"
  shows "buckets_of P (hashMap_append (Hash e) e m) (xs @ [e])"
  using assms
  by (auto simp: buckets_of_def distinct_hashMap_append map_of_hashMap_append bucket_def)

lemma buckets_of_skip:
  assumes "buckets_of P m xs" "\<not> P e"
  shows "buckets_of P m (xs @ [e])"
  using assms by (auto simp: buckets_of_def bucket_def)

lemma hashMap_trash_buckets:
  "buckets_of (\<lambda>_. True) m xs \<Longrightarrow> buckets_of (\<lambda>_. True) (hashMap_trash m ys) (xs @ ys)"
proof (induction ys arbitrary: m xs)
  case Nil then show ?case by simp
next
  case (Cons e ys)
  have "buckets_of (\<lambda>_. True) (hashMap_append (Hash e) e m) (xs @ [e])"
    using Cons.prems by (rule buckets_of_append) simp
  from Cons.IH[OF this] show ?case by simp
qed

lemma hashMap_of_buckets:
  "buckets_of (\<lambda>e. Hash e \<noteq> []) m xs \<Longrightarrow> buckets_of (\<lambda>e. Hash e \<noteq> []) (hashMap_of m ys) (xs @ ys)"
proof (induction ys arbitrary: m xs)
  case Nil then show ?case by simp
next
  case (Cons e ys)
  show ?case
  proof (cases "Hash e \<noteq> []")
    case True
    have "buckets_of (\<lambda>e. Hash e \<noteq> []) (hashMap_append (Hash e) e m) (xs @ [e])"
      using Cons.prems True by (rule buckets_of_append)
    from Cons.IH[OF this] True show ?thesis by simp
  next
    case False
    have "buckets_of (\<lambda>e. Hash e \<noteq> []) m (xs @ [e])"
      using Cons.prems False by (rule buckets_of_skip)
    from Cons.IH[OF this] False show ?thesis by simp
  qed
qed

lemma emit_groups_filter:
  "emit_groups groups m =
     groups @ map (\<lambda>(hash, duplicates). \<lparr>Emails = duplicates, GroupHash = hash\<rparr>)
                  (filter (\<lambda>(hash, duplicates). length duplicates > 1) m)"
  by (induction m arbitrary: groups) auto


lemma buckets_of_Nil: "buckets_of P [] []"
  by (simp add: buckets_of_def bucket_def)

lemma buckets_of_entries:
  assumes "buckets_of P m xs"
  shows "((h, es) \<in> set m) = (filter P (bucket h xs) \<noteq> [] \<and> es = filter P (bucket h xs))"
proof -
  have d: "distinct (map fst m)" using assms by (simp add: buckets_of_def)
  have "((h, es) \<in> set m) = (map_of m h = Some es)"
    using d by auto
  also have "\<dots> = (filter P (bucket h xs) \<noteq> [] \<and> es = filter P (bucket h xs))"
    using assms by (auto simp: buckets_of_def)
  finally show ?thesis .
qed

lemma groups_of_buckets:
  assumes b: "buckets_of P m xs" and p: "mset r = mset m"
  shows "set (emit_groups [] r) =
           {\<lparr>Emails = filter P (bucket h xs), GroupHash = h\<rparr> | h. 1 < length (filter P (bucket h xs))}"
    and "distinct (map GroupHash (emit_groups [] r))"
proof -
  have s: "set r = set m" using p by (rule mset_eq_setD)
  have "mset (map fst r) = mset (map fst m)" using p by (metis mset_map)
  then have d: "distinct (map fst r)"
    using b by (metis buckets_of_def mset_eq_imp_distinct_iff)
  show "set (emit_groups [] r) =
           {\<lparr>Emails = filter P (bucket h xs), GroupHash = h\<rparr> | h. 1 < length (filter P (bucket h xs))}"
    unfolding emit_groups_filter using buckets_of_entries[OF b]
    by (auto simp: s image_iff)
  have "map GroupHash (emit_groups [] r)
          = map fst (filter (\<lambda>(hash, duplicates). length duplicates > 1) r)"
    unfolding emit_groups_filter by (induction r) auto
  then show "distinct (map GroupHash (emit_groups [] r))"
    using d by (simp add: distinct_map_filter)
qed

text \<open>
  Claim C4, as amended. In \<open>manage-duplicates.go\<close> every input message, and in the second
  tool every input message with a non-empty fingerprint, lies in exactly one entry of
  \<open>hashMap\<close>: the entry of its own fingerprint, which holds exactly the input messages
  with that fingerprint, in input order (the second tool passes over messages whose
  \<open>Hash\<close> is empty). A group is emitted if and only if its entry has more than one
  message; its \<open>Emails\<close> are that entry, so every member carries the group's
  fingerprint, and no fingerprint gets two groups. This holds for every order in which
  \<open>range\<close> visits the map; the order of the emitted groups is that order.
\<close>

theorem findDuplicates_partition:
  assumes "mset (range_order (hashMap_trash [] emails)) = mset (hashMap_trash [] emails)"
      and "mset (range_order (hashMap_of [] emails)) = mset (hashMap_of [] emails)"
  shows
   "(\<forall>h. map_of (hashMap_trash [] emails) h
           = (if bucket h emails = [] then None else Some (bucket h emails))) \<and>
    distinct (map fst (hashMap_trash [] emails)) \<and>
    set (findDuplicates_trash range_order emails)
      = {\<lparr>Emails = bucket h emails, GroupHash = h\<rparr> | h. 1 < length (bucket h emails)} \<and>
    distinct (map GroupHash (findDuplicates_trash range_order emails)) \<and>
    (\<forall>h. map_of (hashMap_of [] emails) h
           = (if h = [] \<or> bucket h emails = [] then None else Some (bucket h emails))) \<and>
    distinct (map fst (hashMap_of [] emails)) \<and>
    set (findDuplicates range_order emails)
      = {\<lparr>Emails = bucket h emails, GroupHash = h\<rparr> | h. h \<noteq> [] \<and> 1 < length (bucket h emails)} \<and>
    distinct (map GroupHash (findDuplicates range_order emails))"
proof -
  have bt: "buckets_of (\<lambda>_. True) (hashMap_trash [] emails) emails"
    using hashMap_trash_buckets[OF buckets_of_Nil, of emails] by simp
  have bo: "buckets_of (\<lambda>e. Hash e \<noteq> []) (hashMap_of [] emails) emails"
    using hashMap_of_buckets[OF buckets_of_Nil, of emails] by simp
  have ne: "filter (\<lambda>e. Hash e \<noteq> []) (bucket h emails) = (if h = [] then [] else bucket h emails)" for h
    by (auto simp: bucket_def filter_empty_conv intro: filter_cong)
  have 1: "\<forall>h. map_of (hashMap_trash [] emails) h
           = (if bucket h emails = [] then None else Some (bucket h emails))"
    using bt by (simp add: buckets_of_def)
  have 2: "distinct (map fst (hashMap_trash [] emails))"
    using bt by (simp add: buckets_of_def)
  have 3: "set (findDuplicates_trash range_order emails)
      = {\<lparr>Emails = bucket h emails, GroupHash = h\<rparr> | h. 1 < length (bucket h emails)}"
    using groups_of_buckets(1)[OF bt assms(1)] by (simp add: findDuplicates_trash_def)
  have 4: "distinct (map GroupHash (findDuplicates_trash range_order emails))"
    using groups_of_buckets(2)[OF bt assms(1)] by (simp add: findDuplicates_trash_def)
  have 5: "\<forall>h. map_of (hashMap_of [] emails) h
           = (if h = [] \<or> bucket h emails = [] then None else Some (bucket h emails))"
    using bo by (simp add: buckets_of_def ne)
  have 6: "distinct (map fst (hashMap_of [] emails))"
    using bo by (simp add: buckets_of_def)
  have "set (findDuplicates range_order emails)
      = {\<lparr>Emails = filter (\<lambda>e. Hash e \<noteq> []) (bucket h emails), GroupHash = h\<rparr> | h.
           1 < length (filter (\<lambda>e. Hash e \<noteq> []) (bucket h emails))}"
    using groups_of_buckets(1)[OF bo assms(2)] by (simp add: findDuplicates_def)
  also have "\<dots> = {\<lparr>Emails = bucket h emails, GroupHash = h\<rparr> | h. h \<noteq> [] \<and> 1 < length (bucket h emails)}"
    by (auto simp: ne)
  finally have 7: "set (findDuplicates range_order emails)
      = {\<lparr>Emails = bucket h emails, GroupHash = h\<rparr> | h. h \<noteq> [] \<and> 1 < length (bucket h emails)}" .
  have 8: "distinct (map GroupHash (findDuplicates range_order emails))"
    using groups_of_buckets(2)[OF bo assms(2)] by (simp add: findDuplicates_def)
  from 1 2 3 4 5 6 7 8 show ?thesis by blast
qed

text \<open>A concrete message, for running the functions on inputs.\<close>

definition example_email :: "string \<Rightarrow> nat \<Rightarrow> string \<Rightarrow> EmailInfo" where
  "example_email mb u h =
     \<lparr>Mailbox = mb, Uid = of_nat u, Subject = ''Invoice'', Date = 0, Size = 2048, Hash = h,
      Content = ''From: a@example.org''\<rparr>"

theorem findDuplicates_partition_witness:
  "mset (rev (hashMap_trash []
      [example_email ''INBOX'' 1 ''h1'', example_email ''INBOX'' 2 ''h2'',
       example_email ''Work'' 1 ''h1'', example_email ''Work'' 2 [], example_email ''Work'' 3 []]))
     = mset (hashMap_trash []
      [example_email ''INBOX'' 1 ''h1'', example_email ''INBOX'' 2 ''h2'',
       example_email ''Work'' 1 ''h1'', example_email ''Work'' 2 [], example_email ''Work'' 3 []]) \<and>
   mset (rev (hashMap_of []
      [example_email ''INBOX'' 1 ''h1'', example_email ''INBOX'' 2 ''h2'',
       example_email ''Work'' 1 ''h1'', example_email ''Work'' 2 [], example_email ''Work'' 3 []]))
     = mset (hashMap_of []
      [example_email ''INBOX'' 1 ''h1'', example_email ''INBOX'' 2 ''h2'',
       example_email ''Work'' 1 ''h1'', example_email ''Work'' 2 [], example_email ''Work'' 3 []]) \<and>
   distinct (map GroupHash (findDuplicates_trash rev
      [example_email ''INBOX'' 1 ''h1'', example_email ''INBOX'' 2 ''h2'',
       example_email ''Work'' 1 ''h1'', example_email ''Work'' 2 [], example_email ''Work'' 3 []])) \<and>
   distinct (map GroupHash (findDuplicates rev
      [example_email ''INBOX'' 1 ''h1'', example_email ''INBOX'' 2 ''h2'',
       example_email ''Work'' 1 ''h1'', example_email ''Work'' 2 [], example_email ''Work'' 3 []])) \<and>
   findDuplicates_trash rev
      [example_email ''INBOX'' 1 ''h1'', example_email ''INBOX'' 2 ''h2'',
       example_email ''Work'' 1 ''h1'', example_email ''Work'' 2 [], example_email ''Work'' 3 []]
     = [\<lparr>Emails = [example_email ''Work'' 2 [], example_email ''Work'' 3 []], GroupHash = []\<rparr>,
        \<lparr>Emails = [example_email ''INBOX'' 1 ''h1'', example_email ''Work'' 1 ''h1''],
         GroupHash = ''h1''\<rparr>] \<and>
   findDuplicates rev
      [example_email ''INBOX'' 1 ''h1'', example_email ''INBOX'' 2 ''h2'',
       example_email ''Work'' 1 ''h1'', example_email ''Work'' 2 [], example_email ''Work'' 3 []]
     = [\<lparr>Emails = [example_email ''INBOX'' 1 ''h1'', example_email ''Work'' 1 ''h1''],
         GroupHash = ''h1''\<rparr>]"
proof -
  let ?es = "[example_email ''INBOX'' 1 ''h1'', example_email ''INBOX'' 2 ''h2'',
       example_email ''Work'' 1 ''h1'', example_email ''Work'' 2 [], example_email ''Work'' 3 []]"
  have h1: "mset (rev (hashMap_trash [] ?es)) = mset (hashMap_trash [] ?es)" by simp
  have h2: "mset (rev (hashMap_of [] ?es)) = mset (hashMap_of [] ?es)" by simp
  have e1: "findDuplicates_trash rev ?es
     = [\<lparr>Emails = [example_email ''Work'' 2 [], example_email ''Work'' 3 []], GroupHash = []\<rparr>,
        \<lparr>Emails = [example_email ''INBOX'' 1 ''h1'', example_email ''Work'' 1 ''h1''],
         GroupHash = ''h1''\<rparr>]"
    by (simp add: findDuplicates_trash_def example_email_def)
  have e2: "findDuplicates rev ?es
     = [\<lparr>Emails = [example_email ''INBOX'' 1 ''h1'', example_email ''Work'' 1 ''h1''],
         GroupHash = ''h1''\<rparr>]"
    by (simp add: findDuplicates_def example_email_def)
  from findDuplicates_partition [OF h1 h2] h1 h2 e1 e2 show ?thesis by blast
qed

text \<open>
  The claim as stated fails for the second tool: two messages with the same (empty)
  fingerprint are put into no entry of \<open>hashMap\<close>, and no group is emitted for them,
  although the messages of that fingerprint are more than one.
\<close>

theorem findDuplicates_empty_hash_counterexample:
  "Hash (example_email ''INBOX'' 1 []) = Hash (example_email ''INBOX'' 2 []) \<and>
   length (bucket (Hash (example_email ''INBOX'' 1 []))
             [example_email ''INBOX'' 1 [], example_email ''INBOX'' 2 []]) = 2 \<and>
   map_of (hashMap_of [] [example_email ''INBOX'' 1 [], example_email ''INBOX'' 2 []])
          (Hash (example_email ''INBOX'' 1 [])) = None \<and>
   findDuplicates (\<lambda>m. m) [example_email ''INBOX'' 1 [], example_email ''INBOX'' 2 []] = []"
  by (simp add: findDuplicates_def example_email_def bucket_def)

section \<open>Resolution planning (second duplicates tool, \<open>promptForChoice\<close> and the loop of \<open>main\<close>)\<close>

text \<open>
  Standard input is the sequence of results that the calls of \<open>ReadString\<close> deliver, one
  per prompt: a line, or a read error together with the data read before it. An
  exhausted input reads as an error with no data (end of file). \<open>strings.TrimSpace\<close> and \<open>strconv.Atoi\<close> are the parameters \<open>TrimSpace\<close> and
  \<open>Atoi\<close> (\<open>None\<close> when \<open>Atoi\<close> reports an error). Printing is not modelled.

  \<open>promptForChoice\<close> returns the index to keep, or \<open>-1\<close>, and the quit flag. Outside
  automatic mode it prints \<open>group.Emails[0]\<close> first, which panics on a group without
  members; that panic is the \<open>Inl\<close> result.
\<close>

datatype ReadResult = ReadError string | ReadLine string

definition promptForChoice ::
  "(string \<Rightarrow> string) \<Rightarrow> (string \<Rightarrow> int option) \<Rightarrow> DuplicateGroup \<Rightarrow> bool \<Rightarrow> bool
    \<Rightarrow> ReadResult list \<Rightarrow> error + ((int \<times> bool) \<times> ReadResult list)" where
  "promptForChoice TrimSpace Atoi grp dryRun autoMode stdin =
     (if autoMode then Inr ((0, False), stdin)
      else if Emails grp = [] then Inl ''index out of range [0] with length 0''
      else if dryRun then Inr ((0, False), stdin)
      else
        (case stdin of
           [] \<Rightarrow> Inr ((-1, False), [])
         | ReadError partial # rest \<Rightarrow> Inr ((-1, False), rest)
         | ReadLine line # rest \<Rightarrow>
             (let input = TrimSpace line in
              if input = ''q'' \<or> input = ''Q'' then Inr ((-1, True), rest)
              else if input = ''s'' \<or> input = ''S'' then Inr ((-1, False), rest)
              else
                (case Atoi input of
                   None \<Rightarrow> Inr ((-1, False), rest)
                 | Some choice \<Rightarrow>
                     if choice < 1 \<or> choice > int (length (Emails grp))
                     then Inr ((-1, False), rest)
                     else Inr ((choice - 1, False), rest)))))"

text \<open>
  The inner loop \<open>for j, email := range group.Emails\<close>: every member whose index is not
  \<open>choice\<close> is appended to \<open>plannedDeletes\<close>.
\<close>

fun append_others :: "int \<Rightarrow> int \<Rightarrow> EmailInfo list \<Rightarrow> EmailInfo list \<Rightarrow> EmailInfo list" where
  "append_others choice j [] plannedDeletes = plannedDeletes"
| "append_others choice j (email # rest) plannedDeletes =
     append_others choice (j + 1) rest
       (if j \<noteq> choice then plannedDeletes @ [email] else plannedDeletes)"

text \<open>
  The loop over the duplicate groups. \<open>break\<close> ends it when the user asked for the
  summary; the final \<open>continue\<close> of the body changes nothing.
\<close>

fun plan_groups ::
  "(string \<Rightarrow> string) \<Rightarrow> (string \<Rightarrow> int option) \<Rightarrow> bool \<Rightarrow> bool \<Rightarrow> DuplicateGroup list
    \<Rightarrow> ReadResult list \<Rightarrow> EmailInfo list \<Rightarrow> error + (EmailInfo list \<times> ReadResult list)" where
  "plan_groups TrimSpace Atoi dryRun autoMode [] stdin plannedDeletes = Inr (plannedDeletes, stdin)"
| "plan_groups TrimSpace Atoi dryRun autoMode (grp # groups) stdin plannedDeletes =
     (case promptForChoice TrimSpace Atoi grp dryRun autoMode stdin of
        Inl panic \<Rightarrow> Inl panic
      | Inr ((choice, quit), stdin') \<Rightarrow>
          (let plannedDeletes' =
                 (if choice \<noteq> -1 then append_others choice 0 (Emails grp) plannedDeletes
                  else plannedDeletes)
           in if quit \<and> \<not> autoMode then Inr (plannedDeletes', stdin')
              else plan_groups TrimSpace Atoi dryRun autoMode groups stdin' plannedDeletes'))"

text \<open>
  The decisions taken while the loop runs: for each group it reaches, the choice that
  \<open>promptForChoice\<close> returned (\<open>-1\<close> for a skipped group). The program does not keep
  them; they serve to state what each group contributes to the plan.
\<close>

fun decisions ::
  "(string \<Rightarrow> string) \<Rightarrow> (string \<Rightarrow> int option) \<Rightarrow> bool \<Rightarrow> bool \<Rightarrow> DuplicateGroup list
    \<Rightarrow> ReadResult list \<Rightarrow> int list" where
  "decisions TrimSpace Atoi dryRun autoMode [] stdin = []"
| "decisions TrimSpace Atoi dryRun autoMode (grp # groups) stdin =
     (case promptForChoice TrimSpace Atoi grp dryRun autoMode stdin of
        Inl panic \<Rightarrow> []
      | Inr ((choice, quit), stdin') \<Rightarrow>
          choice # (if quit \<and> \<not> autoMode then []
                    else decisions TrimSpace Atoi dryRun autoMode groups stdin'))"

text \<open>What a group contributes under a decision: nothing, or all members but the kept one.\<close>

definition contribution :: "DuplicateGroup \<Rightarrow> int \<Rightarrow> EmailInfo list" where
  "contribution grp choice =
     (if choice = -1 then []
      else take (nat choice) (Emails grp) @ drop (Suc (nat choice)) (Emails grp))"

text \<open>
  Concrete library functions for running the planner: trimming of ASCII white space and
  the reading of an optionally signed decimal number in the range of a 64-bit \<open>int\<close>.
\<close>

definition is_ascii_space :: "char \<Rightarrow> bool" where
  "is_ascii_space c = (c \<in> set [CHR '' '', CHR 0x09, CHR 0x0A, CHR 0x0B, CHR 0x0C, CHR 0x0D])"

definition TrimSpace_ascii :: "string \<Rightarrow> string" where
  "TrimSpace_ascii s = rev (dropWhile is_ascii_space (rev (dropWhile is_ascii_space s)))"

definition digit_value :: "char \<Rightarrow> int option" where
  "digit_value c =
     (if 48 \<le> (of_char c :: nat) \<and> (of_char c :: nat) \<le> 57
      then Some (int (of_char c) - 48) else None)"

fun digits_value :: "int \<Rightarrow> string \<Rightarrow> int option" where
  "digits_value acc [] = Some acc"
| "digits_value acc (c # cs) =
     (case digit_value c of None \<Rightarrow> None | Some d \<Rightarrow> digits_value (10 * acc + d) cs)"

definition Atoi_decimal :: "string \<Rightarrow> int option" where
  "Atoi_decimal s =
     (let (neg, ds) = (case s of
                         c # cs \<Rightarrow> if c = CHR ''-'' then (True, cs)
                                   else if c = CHR ''+'' then (False, cs) else (False, s)
                       | [] \<Rightarrow> (False, s))
      in if ds = [] then None
         else (case digits_value 0 ds of
                 None \<Rightarrow> None
               | Some n \<Rightarrow>
                   let v = (if neg then - n else n)
                   in if - (2 ^ 63) \<le> v \<and> v < 2 ^ 63 then Some v else None))"

subsection \<open>What the loop adds to the plan\<close>

lemma append_others_eq:
  "append_others choice j es planned =
     planned @ (if j \<le> choice \<and> choice < j + int (length es)
                then take (nat (choice - j)) es @ drop (Suc (nat (choice - j))) es else es)"
proof (induction es arbitrary: j planned)
  case Nil then show ?case by simp
next
  case (Cons e es)
  show ?case
  proof (cases "j = choice")
    case True
    then show ?thesis using Cons.IH[of "j + 1" planned] by simp
  next
    case False
    show ?thesis
    proof (cases "j < choice \<and> choice < j + 1 + int (length es)")
      case True
      then have "nat (choice - j) = Suc (nat (choice - (j + 1)))" by linarith
      then show ?thesis using Cons.IH[of "j + 1" "planned @ [e]"] True False by simp
    next
      case F2: False
      then show ?thesis using Cons.IH[of "j + 1" "planned @ [e]"] False by auto
    qed
  qed
qed

lemma promptForChoice_range:
  assumes "promptForChoice TrimSpace Atoi grp dryRun autoMode stdin = Inr ((choice, quit), stdin')"
      and "Emails grp \<noteq> []"
  shows "choice = -1 \<or> (0 \<le> choice \<and> choice < int (length (Emails grp)))"
  using assms
  by (auto simp: promptForChoice_def Let_def split: if_splits list.splits ReadResult.splits option.splits)

lemma promptForChoice_quit:
  assumes "promptForChoice TrimSpace Atoi grp dryRun autoMode stdin = Inr ((choice, quit), stdin')"
  shows "quit \<longrightarrow> choice = -1"
  using assms
  by (auto simp: promptForChoice_def Let_def split: if_splits list.splits ReadResult.splits option.splits)

lemma promptForChoice_no_panic:
  "Emails grp \<noteq> [] \<Longrightarrow> \<exists>r. promptForChoice TrimSpace Atoi grp dryRun autoMode stdin = Inr r"
  by (auto simp: promptForChoice_def Let_def split: if_splits list.splits ReadResult.splits option.splits)

lemma plan_groups_contributions:
  assumes "\<forall>g\<in>set groups. Emails g \<noteq> []"
  shows "\<exists>stdin'. plan_groups TrimSpace Atoi dryRun autoMode groups stdin planned =
           Inr (planned @ concat (map2 contribution groups
                  (decisions TrimSpace Atoi dryRun autoMode groups stdin)), stdin')"
  using assms
proof (induction groups arbitrary: stdin planned)
  case Nil then show ?case by simp
next
  case (Cons g gs)
  have ne: "Emails g \<noteq> []" using Cons.prems by simp
  obtain c q s' where p: "promptForChoice TrimSpace Atoi g dryRun autoMode stdin = Inr ((c, q), s')"
    using promptForChoice_no_panic[OF ne, of TrimSpace Atoi dryRun autoMode stdin] by auto
  have r: "c = -1 \<or> (0 \<le> c \<and> c < int (length (Emails g)))"
    using promptForChoice_range[OF p ne] .
  have step: "(if c \<noteq> -1 then append_others c 0 (Emails g) planned else planned)
                = planned @ contribution g c"
    using r by (auto simp: append_others_eq contribution_def)
  show ?case
  proof (cases "q \<and> \<not> autoMode")
    case True
    then show ?thesis using p step by (simp add: Let_def)
  next
    case False
    have "\<forall>g\<in>set gs. Emails g \<noteq> []" using Cons.prems by simp
    from Cons.IH[OF this, of s' "planned @ contribution g c"] obtain s'' where
      "plan_groups TrimSpace Atoi dryRun autoMode gs s' (planned @ contribution g c) =
         Inr ((planned @ contribution g c) @ concat (map2 contribution gs
                  (decisions TrimSpace Atoi dryRun autoMode gs s')), s'')" by blast
    then have ih: "plan_groups TrimSpace Atoi dryRun autoMode gs s' (planned @ contribution g c) =
         Inr (planned @ contribution g c @ concat (map2 contribution gs
                  (decisions TrimSpace Atoi dryRun autoMode gs s')), s'')" by simp
    have a: "plan_groups TrimSpace Atoi dryRun autoMode (g # gs) stdin planned
               = plan_groups TrimSpace Atoi dryRun autoMode gs s' (planned @ contribution g c)"
      using p by (simp add: Let_def step False del: plan_groups.simps(1))
    have b: "decisions TrimSpace Atoi dryRun autoMode (g # gs) stdin
               = c # decisions TrimSpace Atoi dryRun autoMode gs s'"
      using p by (simp add: False)
    show ?thesis unfolding a b ih by simp
  qed
qed

lemma decisions_range:
  assumes "\<forall>g\<in>set groups. Emails g \<noteq> []"
  shows "\<forall>(g, c) \<in> set (zip groups (decisions TrimSpace Atoi dryRun autoMode groups stdin)).
           c = -1 \<or> (0 \<le> c \<and> c < int (length (Emails g)))"
  using assms
proof (induction groups arbitrary: stdin)
  case Nil then show ?case by simp
next
  case (Cons g gs)
  have ne: "Emails g \<noteq> []" using Cons.prems by simp
  obtain c q s' where p: "promptForChoice TrimSpace Atoi g dryRun autoMode stdin = Inr ((c, q), s')"
    using promptForChoice_no_panic[OF ne, of TrimSpace Atoi dryRun autoMode stdin] by auto
  have r: "c = -1 \<or> (0 \<le> c \<and> c < int (length (Emails g)))"
    using promptForChoice_range[OF p ne] .
  have "\<forall>g\<in>set gs. Emails g \<noteq> []" using Cons.prems by simp
  from Cons.IH[OF this, of s'] show ?case using p r by auto
qed

lemma decisions_auto:
  "decisions TrimSpace Atoi dryRun True groups stdin = replicate (length groups) 0"
  by (induction groups arbitrary: stdin) (simp_all add: promptForChoice_def)

text \<open>
  Claim C1. Let the loop run over duplicate groups (each with more than one member).
  The plan it builds is the concatenation, over the groups it reaches, of each group's
  contribution under the decision taken for it: a skipped group (decision \<open>-1\<close>)
  contributes nothing, and a resolved group contributes every member except the one at
  the kept index, once each and in order; every decision is \<open>-1\<close> or an index into its
  group. In automatic mode every decision is \<open>0\<close>, so the first member is kept.
\<close>

theorem plan_groups_one_survivor:
  assumes "\<forall>g\<in>set groups. 1 < length (Emails g)"
  shows "(\<exists>stdin'. plan_groups TrimSpace Atoi dryRun autoMode groups stdin [] =
            Inr (concat (map2 contribution groups
                   (decisions TrimSpace Atoi dryRun autoMode groups stdin)), stdin')) \<and>
         (\<forall>(g, c)\<in>set (zip groups (decisions TrimSpace Atoi dryRun autoMode groups stdin)).
            c = -1 \<or> (0 \<le> c \<and> c < int (length (Emails g)))) \<and>
         (autoMode \<longrightarrow>
            decisions TrimSpace Atoi dryRun autoMode groups stdin = replicate (length groups) 0)"
proof -
  have ne: "\<forall>g\<in>set groups. Emails g \<noteq> []" using assms by auto
  show ?thesis
    using plan_groups_contributions [OF ne, of TrimSpace Atoi dryRun autoMode stdin "[]"]
          decisions_range [OF ne, of TrimSpace Atoi dryRun autoMode stdin]
          decisions_auto [of TrimSpace Atoi dryRun groups stdin]
    by auto
qed

theorem plan_groups_one_survivor_witness:
  "list_all (\<lambda>g. 1 < length (Emails g))
     [\<lparr>Emails = [example_email ''INBOX'' 1 ''h1'', example_email ''Work'' 4 ''h1'',
                 example_email ''Old'' 9 ''h1''], GroupHash = ''h1''\<rparr>] \<and>
   plan_groups TrimSpace_ascii Atoi_decimal False True
     [\<lparr>Emails = [example_email ''INBOX'' 1 ''h1'', example_email ''Work'' 4 ''h1'',
                 example_email ''Old'' 9 ''h1''], GroupHash = ''h1''\<rparr>] [] []
     = Inr ([example_email ''Work'' 4 ''h1'', example_email ''Old'' 9 ''h1''], []) \<and>
   decisions TrimSpace_ascii Atoi_decimal False False
     [\<lparr>Emails = [example_email ''INBOX'' 1 ''h1'', example_email ''Work'' 4 ''h1'',
                 example_email ''Old'' 9 ''h1''], GroupHash = ''h1''\<rparr>] [ReadLine '' 2'']
     = [1] \<and>
   plan_groups TrimSpace_ascii Atoi_decimal False False
     [\<lparr>Emails = [example_email ''INBOX'' 1 ''h1'', example_email ''Work'' 4 ''h1'',
                 example_email ''Old'' 9 ''h1''], GroupHash = ''h1''\<rparr>] [ReadLine '' 2''] []
     = Inr ([example_email ''INBOX'' 1 ''h1'', example_email ''Old'' 9 ''h1''], []) \<and>
   plan_groups TrimSpace_ascii Atoi_decimal False False
     [\<lparr>Emails = [example_email ''INBOX'' 1 ''h1'', example_email ''Work'' 4 ''h1'',
                 example_email ''Old'' 9 ''h1''], GroupHash = ''h1''\<rparr>] [ReadLine ''s''] []
     = Inr ([], [])"
proof -
  let ?g = "\<lparr>Emails = [example_email ''INBOX'' 1 ''h1'', example_email ''Work'' 4 ''h1'',
                 example_email ''Old'' 9 ''h1''], GroupHash = ''h1''\<rparr>"
  have h: "\<forall>g\<in>set [?g]. 1 < length (Emails g)" by simp
  have d1: "decisions TrimSpace_ascii Atoi_decimal False True [?g] [] = [0]"
    by (simp add: promptForChoice_def)
  have d2: "decisions TrimSpace_ascii Atoi_decimal False False [?g] [ReadLine '' 2''] = [1]"
    by code_simp
  have d3: "decisions TrimSpace_ascii Atoi_decimal False False [?g] [ReadLine ''s''] = [-1]"
    by code_simp
  have c: "contribution ?g 0 = [example_email ''Work'' 4 ''h1'', example_email ''Old'' 9 ''h1'']"
          "contribution ?g 1 = [example_email ''INBOX'' 1 ''h1'', example_email ''Old'' 9 ''h1'']"
          "contribution ?g (-1) = []"
    by (simp_all add: contribution_def)
  have r1: "snd (projr (plan_groups TrimSpace_ascii Atoi_decimal False True [?g] [] [])) = []"
    by (simp add: promptForChoice_def)
  have r2: "snd (projr (plan_groups TrimSpace_ascii Atoi_decimal False False [?g] [ReadLine '' 2''] [])) = []"
    by code_simp
  have r3: "snd (projr (plan_groups TrimSpace_ascii Atoi_decimal False False [?g] [ReadLine ''s''] [])) = []"
    by code_simp
  have m: "\<And>c. concat (map2 contribution [?g] [c]) = contribution ?g c" by simp
  obtain s1 where e1: "plan_groups TrimSpace_ascii Atoi_decimal False True [?g] [] []
                         = Inr (contribution ?g 0, s1)"
    using plan_groups_one_survivor [OF h, of TrimSpace_ascii Atoi_decimal False True "[]"]
    unfolding d1 m by blast
  obtain s2 where e2: "plan_groups TrimSpace_ascii Atoi_decimal False False [?g] [ReadLine '' 2''] []
                         = Inr (contribution ?g 1, s2)"
    using plan_groups_one_survivor [OF h, of TrimSpace_ascii Atoi_decimal False False "[ReadLine '' 2'']"]
    unfolding d2 m by blast
  obtain s3 where e3: "plan_groups TrimSpace_ascii Atoi_decimal False False [?g] [ReadLine ''s''] []
                         = Inr (contribution ?g (-1), s3)"
    using plan_groups_one_survivor [OF h, of TrimSpace_ascii Atoi_decimal False False "[ReadLine ''s'']"]
    unfolding d3 m by blast
  have z: "s1 = []" "s2 = []" "s3 = []"
    using r1 [unfolded e1] r2 [unfolded e2] r3 [unfolded e3] by simp_all
  have p1: "plan_groups TrimSpace_ascii Atoi_decimal False True [?g] [] []
              = Inr ([example_email ''Work'' 4 ''h1'', example_email ''Old'' 9 ''h1''], [])"
    unfolding e1 c z by simp
  have p2: "plan_groups TrimSpace_ascii Atoi_decimal False False [?g] [ReadLine '' 2''] []
              = Inr ([example_email ''INBOX'' 1 ''h1'', example_email ''Old'' 9 ''h1''], [])"
    unfolding e2 c z by simp
  have p3: "plan_groups TrimSpace_ascii Atoi_decimal False False [?g] [ReadLine ''s''] [] = Inr ([], [])"
    unfolding e3 c z by simp
  have l: "list_all (\<lambda>g. 1 < length (Emails g)) [?g]" by simp
  show ?thesis unfolding p1 p2 p3 d2 using l by simp
qed

section \<open>Content fingerprint (\<open>computeEmailHash\<close> of \<open>manage-duplicates.go\<close>)\<close>

text \<open>
  A parsed message as \<open>computeEmailHash\<close> reads it: the values of the header fields
  \<open>Subject\<close> and \<open>Date\<close> (empty when absent), and the results of the successive calls of
  \<open>NextPart\<close> up to \<open>io.EOF\<close>. A call of \<open>NextPart\<close> yields an error or a part; of a part
  the function reads the \<open>Content-Type\<close> header value and, through \<open>io.ReadAll\<close>, the
  decoded body, which is the content or a read error.
\<close>

datatype PartBody = ReadAllOk string | ReadAllErr error

record Part =
  ContentType :: string
  Body :: PartBody

datatype NextPartResult = NextPartErr error | NextPartOk Part

record MailReader =
  headerSubject :: string
  headerDate :: string
  nextParts :: "NextPartResult list"

text \<open>
  The hash object \<open>h\<close> is represented by the bytes written to it so far: \<open>sha256.New()\<close>
  is the empty sequence, \<open>h.Write\<close> appends, and \<open>h.Sum(nil)\<close> is the SHA-256 digest of
  all bytes written. The digest function is the parameter \<open>Sum256\<close>.

  The loop over the parts, with \<open>h\<close> as accumulator. The \<open>switch\<close> tries its three cases
  in order; a body that cannot be read is not written.
\<close>

fun hash_parts :: "string \<Rightarrow> NextPartResult list \<Rightarrow> error + string" where
  "hash_parts h [] = Inr h"
| "hash_parts h (NextPartErr err # rest) = Inl err"
| "hash_parts h (NextPartOk p # rest) =
     (let contentType = ContentType p in
      if HasPrefix contentType ''text/plain'' then
        (case Body p of ReadAllOk content \<Rightarrow> hash_parts (h @ content) rest
                      | ReadAllErr err \<Rightarrow> hash_parts h rest)
      else if HasPrefix contentType ''text/html'' then
        (case Body p of ReadAllOk content \<Rightarrow> hash_parts (h @ content) rest
                      | ReadAllErr err \<Rightarrow> hash_parts h rest)
      else if HasPrefix contentType ''application/'' then
        (case Body p of ReadAllOk content \<Rightarrow> hash_parts (h @ content) rest
                      | ReadAllErr err \<Rightarrow> hash_parts h rest)
      else hash_parts h rest)"

text \<open>The bytes written to \<open>h\<close> when the function reaches its last line, or its error.\<close>

definition computeEmailHash_written :: "MailReader \<Rightarrow> error + string" where
  "computeEmailHash_written msg =
     (let h = [];
          h = (if headerSubject msg \<noteq> [] then h @ headerSubject msg else h);
          h = (if headerDate msg \<noteq> [] then h @ headerDate msg else h)
      in hash_parts h (nextParts msg))"

text \<open>\<open>hex.EncodeToString\<close>: two lower-case hexadecimal digits per byte.\<close>

definition hex_digit :: "nat \<Rightarrow> char" where
  "hex_digit n = ''0123456789abcdef'' ! (n mod 16)"

definition EncodeToString :: "string \<Rightarrow> string" where
  "EncodeToString bs = concat (map (\<lambda>b. [hex_digit (of_char b div 16), hex_digit (of_char b mod 16)]) bs)"

definition computeEmailHash :: "(string \<Rightarrow> string) \<Rightarrow> MailReader \<Rightarrow> error + string" where
  "computeEmailHash Sum256 msg =
     (case computeEmailHash_written msg of
        Inl err \<Rightarrow> Inl err
      | Inr h \<Rightarrow> Inr (EncodeToString (Sum256 h)))"

subsection \<open>The hash input\<close>

text \<open>
  The parts the code writes to the hash: those whose \<open>Content-Type\<close> value begins with
  one of the three texts and whose body could be read.
\<close>

definition hashed_type :: "string \<Rightarrow> bool" where
  "hashed_type contentType =
     (HasPrefix contentType ''text/plain'' \<or> HasPrefix contentType ''text/html'' \<or>
      HasPrefix contentType ''application/'')"

fun part_of :: "NextPartResult \<Rightarrow> Part option" where
  "part_of (NextPartOk p) = Some p"
| "part_of (NextPartErr err) = None"

fun decoded :: "Part \<Rightarrow> string option" where
  "decoded p = (case Body p of ReadAllOk content \<Rightarrow> Some content | ReadAllErr err \<Rightarrow> None)"

definition hashed_contents :: "NextPartResult list \<Rightarrow> string list" where
  "hashed_contents ps =
     List.map_filter
       (\<lambda>r. case part_of r of
               None \<Rightarrow> None
             | Some p \<Rightarrow> if hashed_type (ContentType p) then decoded p else None) ps"

text \<open>
  The selection of parts as the specification words it: the declared content type is
  \<open>text/plain\<close>, is \<open>text/html\<close>, or begins with \<open>application/\<close>.
\<close>

definition spec_hashed_type :: "string \<Rightarrow> bool" where
  "spec_hashed_type contentType =
     (contentType = ''text/plain'' \<or> contentType = ''text/html'' \<or>
      HasPrefix contentType ''application/'')"

definition spec_hashed_contents :: "NextPartResult list \<Rightarrow> string list" where
  "spec_hashed_contents ps =
     List.map_filter
       (\<lambda>r. case part_of r of
               None \<Rightarrow> None
             | Some p \<Rightarrow> if spec_hashed_type (ContentType p) then decoded p else None) ps"

text \<open>
  The error that ends the loop over the parts, if any: the first error that \<open>NextPart\<close>
  reports before \<open>io.EOF\<close>.
\<close>

fun NextPart_error :: "NextPartResult list \<Rightarrow> error option" where
  "NextPart_error [] = None"
| "NextPart_error (NextPartErr err # rest) = Some err"
| "NextPart_error (NextPartOk p # rest) = NextPart_error rest"

lemma hash_parts_result:
  "hash_parts h ps =
     (case NextPart_error ps of
        Some err \<Rightarrow> Inl err
      | None \<Rightarrow> Inr (h @ concat (hashed_contents ps)))"
proof (induction ps arbitrary: h)
  case Nil
  then show ?case by (simp add: hashed_contents_def)
next
  case (Cons r ps)
  show ?case
  proof (cases r)
    case (NextPartErr err)
    then show ?thesis by simp
  next
    case (NextPartOk p)
    have c: "hashed_contents (NextPartOk p # ps) =
        (if hashed_type (ContentType p)
         then (case Body p of ReadAllOk content \<Rightarrow> content # hashed_contents ps
                            | ReadAllErr err \<Rightarrow> hashed_contents ps)
         else hashed_contents ps)"
      by (cases "Body p") (simp_all add: hashed_contents_def)
    show ?thesis
      unfolding NextPartOk c
      by (cases "Body p"; cases "NextPart_error ps")
         (simp_all add: Cons.IH hashed_type_def Let_def)
  qed
qed

text \<open>
  Claim C6, as amended. The fingerprint is the hexadecimal SHA-256 digest of the
  \<open>Subject\<close> value, then the \<open>Date\<close> value, then, in part order, the decoded content of
  every part whose \<open>Content-Type\<close> value begins with \<open>text/plain\<close>, \<open>text/html\<close> or
  \<open>application/\<close>. Other parts are left out, and so is a part whose body cannot be
  read (\<open>io.ReadAll\<close> fails), without failing the fingerprint. The one failure is that
  of \<open>NextPart\<close>: when it reports an error before the end of the message, the function
  returns that error and no fingerprint.
\<close>

theorem computeEmailHash_input:
  "computeEmailHash Sum256 msg =
     (case NextPart_error (nextParts msg) of
        Some err \<Rightarrow> Inl err
      | None \<Rightarrow>
          Inr (EncodeToString (Sum256
                 (headerSubject msg @ headerDate msg @ concat (hashed_contents (nextParts msg))))))"
  by (simp add: computeEmailHash_def computeEmailHash_written_def hash_parts_result Let_def
      split: option.splits)

text \<open>
  A message of five parts, of which one is an image and one has a body that cannot be
  read; and the same message when \<open>NextPart\<close> fails after the first part.
\<close>

theorem computeEmailHash_input_witness:
  "computeEmailHash (\<lambda>bytes. bytes)
     \<lparr>headerSubject = ''Invoice'', headerDate = ''Mon, 2 Jan 2006'', nextParts =
       [NextPartOk \<lparr>ContentType = ''text/plain; charset=utf-8'', Body = ReadAllOk ''Hello''\<rparr>,
        NextPartOk \<lparr>ContentType = ''image/png'', Body = ReadAllOk ''PNG''\<rparr>,
        NextPartOk \<lparr>ContentType = ''text/html'', Body = ReadAllOk ''<p>Hello</p>''\<rparr>,
        NextPartOk \<lparr>ContentType = ''application/pdf'', Body = ReadAllErr ''unexpected EOF''\<rparr>,
        NextPartOk \<lparr>ContentType = ''application/json'', Body = ReadAllOk ''{}''\<rparr>]\<rparr>
     = Inr (EncodeToString ''InvoiceMon, 2 Jan 2006Hello<p>Hello</p>{}'') \<and>
   computeEmailHash (\<lambda>bytes. bytes)
     \<lparr>headerSubject = ''Invoice'', headerDate = ''Mon, 2 Jan 2006'', nextParts =
       [NextPartOk \<lparr>ContentType = ''text/plain; charset=utf-8'', Body = ReadAllOk ''Hello''\<rparr>,
        NextPartErr ''multipart: NextPart: EOF'',
        NextPartOk \<lparr>ContentType = ''text/html'', Body = ReadAllOk ''<p>Hello</p>''\<rparr>]\<rparr>
     = Inl ''multipart: NextPart: EOF''"
proof -
  let ?ps = "[NextPartOk \<lparr>ContentType = ''text/plain; charset=utf-8'', Body = ReadAllOk ''Hello''\<rparr>,
      NextPartOk \<lparr>ContentType = ''image/png'', Body = ReadAllOk ''PNG''\<rparr>,
      NextPartOk \<lparr>ContentType = ''text/html'', Body = ReadAllOk ''<p>Hello</p>''\<rparr>,
      NextPartOk \<lparr>ContentType = ''application/pdf'', Body = ReadAllErr ''unexpected EOF''\<rparr>,
      NextPartOk \<lparr>ContentType = ''application/json'', Body = ReadAllOk ''{}''\<rparr>]"
  let ?m = "\<lparr>headerSubject = ''Invoice'', headerDate = ''Mon, 2 Jan 2006'', nextParts = ?ps\<rparr>"
  let ?qs = "[NextPartOk \<lparr>ContentType = ''text/plain; charset=utf-8'', Body = ReadAllOk ''Hello''\<rparr>,
        NextPartErr ''multipart: NextPart: EOF'',
        NextPartOk \<lparr>ContentType = ''text/html'', Body = ReadAllOk ''<p>Hello</p>''\<rparr>]"
  let ?n = "\<lparr>headerSubject = ''Invoice'', headerDate = ''Mon, 2 Jan 2006'', nextParts = ?qs\<rparr>"
  have c: "hashed_contents ?ps = [''Hello'', ''<p>Hello</p>'', ''{}'']"
    by (simp add: hashed_contents_def hashed_type_def HasPrefix_def)
  have a: "computeEmailHash (\<lambda>bytes. bytes) ?m
             = Inr (EncodeToString ''InvoiceMon, 2 Jan 2006Hello<p>Hello</p>{}'')"
    using computeEmailHash_input [of "\<lambda>bytes. bytes" ?m] by (simp add: c)
  have b: "computeEmailHash (\<lambda>bytes. bytes) ?n = Inl ''multipart: NextPart: EOF''"
    using computeEmailHash_input [of "\<lambda>bytes. bytes" ?n] by simp
  from a b show ?thesis by (rule conjI)
qed

text \<open>
  The claim as stated fails: a part whose declared content type is \<open>text/plainx\<close> is
  none of \<open>text/plain\<close>, \<open>text/html\<close> and \<open>application/...\<close>, yet its content is written
  to the hash, since the code tests the beginning of the value only.
\<close>

theorem computeEmailHash_prefix_counterexample:
  "computeEmailHash_written
     \<lparr>headerSubject = ''Invoice'', headerDate = ''Mon, 2 Jan 2006'', nextParts =
       [NextPartOk \<lparr>ContentType = ''text/plainx'', Body = ReadAllOk ''Hello''\<rparr>]\<rparr>
     = Inr ''InvoiceMon, 2 Jan 2006Hello'' \<and>
   ''Invoice'' @ ''Mon, 2 Jan 2006'' @
     concat (spec_hashed_contents
       [NextPartOk \<lparr>ContentType = ''text/plainx'', Body = ReadAllOk ''Hello''\<rparr>])
     = ''InvoiceMon, 2 Jan 2006''"
  by (simp add: computeEmailHash_written_def spec_hashed_contents_def spec_hashed_type_def
      HasPrefix_def)

section \<open>Batched scanning (\<open>scanMailbox\<close>)\<close>

text \<open>
  A \<open>Fetch\<close> runs in a goroutine of its own: it sends the messages over the channel
  \<open>messages\<close>, closes it, and then sends its completion status over the channel \<open>done\<close>.
  The scanner ranges over \<open>messages\<close> until the channel is closed and then receives from
  \<open>done\<close>. A retrieval is represented by what it delivers: the messages in the order
  delivered, and the completion status (\<open>None\<close> for success).
\<close>

record 'm FetchResult =
  delivered :: "'m list"
  completion :: "error option"

text \<open>
  The session as the scanner uses it: \<open>selectResult\<close> is the message count that
  \<open>Select\<close> reports for a mailbox, or its error; \<open>fetchResult name k from to\<close> is the
  retrieval of the window \<open>from:to\<close>, issued as the \<open>k\<close>-th fetch (counted from \<open>0\<close>) of
  the scan of mailbox \<open>name\<close>.
\<close>

record 'm ScanSession =
  selectResult :: "string \<Rightarrow> error + uint32"
  fetchResult :: "string \<Rightarrow> nat \<Rightarrow> uint32 \<Rightarrow> uint32 \<Rightarrow> 'm FetchResult"

text \<open>
  The batch loop \<open>for i := uint32(1); i <= mbox.Messages; i += batchSize\<close>, the same in
  both tools but for the batch size and the body of the inner loop, which is the
  parameter \<open>consume\<close>: it receives the delivered messages and \<open>emails\<close> and returns the
  extended \<open>emails\<close>. The arithmetic is that of \<open>uint32\<close> and wraps around; for a message
  count close to \<open>2^32\<close> the loop need not end, so not returning is the value \<open>None\<close>.
\<close>

partial_function (option) scan_batches ::
  "(nat \<Rightarrow> uint32 \<Rightarrow> uint32 \<Rightarrow> 'm FetchResult) \<Rightarrow> ('m list \<Rightarrow> EmailInfo list \<Rightarrow> EmailInfo list)
    \<Rightarrow> uint32 \<Rightarrow> uint32 \<Rightarrow> nat \<Rightarrow> uint32 \<Rightarrow> EmailInfo list \<Rightarrow> (error + EmailInfo list) option" where
  "scan_batches fetch consume batchSize Messages k i emails =
     (if i \<le> Messages then
        (let from = i;
             to = i + batchSize - 1;
             to = (if to > Messages then Messages else to);
             r = fetch k from to;
             emails = consume (delivered r) emails
         in case completion r of
              Some err \<Rightarrow> Some (Inl (''error fetching messages: '' @ err))
            | None \<Rightarrow> scan_batches fetch consume batchSize Messages (Suc k) (i + batchSize) emails)
      else Some (Inr emails))"

declare scan_batches.simps [code]

subsection \<open>The second duplicates tool\<close>

text \<open>
  A fetched message. \<open>msgBody\<close> lists the values of the map \<open>msg.Body\<close> in the order the
  loop visits them: \<open>None\<close> is a nil literal, \<open>Some (Inl err)\<close> one whose reading fails,
  \<open>Some (Inr data)\<close> one that reads as \<open>data\<close>. The envelope was requested and is taken
  to be present. The channel may deliver a nil message (\<open>None\<close>).
\<close>

record Message =
  msgUid :: uint32
  envelopeSubject :: string
  envelopeDate :: int
  msgSize :: uint32
  msgBody :: "(error + string) option list"

fun read_body :: "(error + string) option list \<Rightarrow> string" where
  "read_body [] = []"
| "read_body (None # rs) = read_body rs"
| "read_body (Some (Inl err) # rs) = read_body rs"
| "read_body (Some (Inr data) # rs) = data"

text \<open>
  The inner loop \<open>for msg := range messages\<close>. \<open>sha256.Sum256\<close> is the parameter \<open>Sum256\<close>.
  \<open>msgData[:100]\<close> reslices into the spare capacity of the buffer when the message has
  fewer than 100 bytes (\<open>ReadFrom\<close> leaves at least 512 spare bytes, which are zero).
\<close>

fun consume_messages ::
  "(string \<Rightarrow> string) \<Rightarrow> string \<Rightarrow> Message option list \<Rightarrow> EmailInfo list \<Rightarrow> EmailInfo list" where
  "consume_messages Sum256 mailboxName [] emails = emails"
| "consume_messages Sum256 mailboxName (None # msgs) emails =
     consume_messages Sum256 mailboxName msgs emails"
| "consume_messages Sum256 mailboxName (Some msg # msgs) emails =
     (let msgData = read_body (msgBody msg) in
      if length msgData = 0 then consume_messages Sum256 mailboxName msgs emails
      else
        (let hash = Sum256 msgData;
             emailInfo = \<lparr>Mailbox = mailboxName, Uid = msgUid msg,
                          Subject = envelopeSubject msg, Date = envelopeDate msg,
                          Size = of_nat (length msgData), Hash = EncodeToString hash,
                          Content = take 100 (msgData @ replicate 100 (CHR 0x00))\<rparr>
         in consume_messages Sum256 mailboxName msgs (emails @ [emailInfo])))"

definition scanMailbox ::
  "(string \<Rightarrow> string) \<Rightarrow> Message option ScanSession \<Rightarrow> string \<Rightarrow> (error + EmailInfo list) option" where
  "scanMailbox Sum256 session mailboxName =
     (case selectResult session mailboxName of
        Inl err \<Rightarrow> Some (Inl (''error selecting mailbox: '' @ err))
      | Inr Messages \<Rightarrow>
          if Messages = 0 then Some (Inr [])
          else scan_batches (fetchResult session mailboxName)
                 (consume_messages Sum256 mailboxName) 50 Messages 0 1 [])"

subsection \<open>The tool of \<open>manage-duplicates.go\<close>\<close>

text \<open>
  A fetched message there: \<open>parsedBody\<close> is \<open>None\<close> when \<open>GetBody\<close> returns nil,
  \<open>Some (Inl err)\<close> when \<open>mail.CreateReader\<close> fails, and the reader otherwise. The
  \<open>EmailInfo\<close> of this tool has no \<open>Content\<close>; the field is left empty.
\<close>

record Message_trash =
  msgUid_trash :: uint32
  envelopeSubject_trash :: string
  envelopeDate_trash :: int
  msgSize_trash :: uint32
  parsedBody :: "(error + MailReader) option"

fun consume_messages_trash ::
  "(string \<Rightarrow> string) \<Rightarrow> string \<Rightarrow> Message_trash list \<Rightarrow> EmailInfo list \<Rightarrow> EmailInfo list" where
  "consume_messages_trash Sum256 mailboxName [] emails = emails"
| "consume_messages_trash Sum256 mailboxName (msg # msgs) emails =
     (case parsedBody msg of
        None \<Rightarrow> consume_messages_trash Sum256 mailboxName msgs emails
      | Some (Inl err) \<Rightarrow> consume_messages_trash Sum256 mailboxName msgs emails
      | Some (Inr mr) \<Rightarrow>
          (case computeEmailHash Sum256 mr of
             Inl err \<Rightarrow> consume_messages_trash Sum256 mailboxName msgs emails
           | Inr hash \<Rightarrow>
               (let emailInfo = \<lparr>Mailbox = mailboxName, Uid = msgUid_trash msg,
                                 Subject = envelopeSubject_trash msg,
                                 Date = envelopeDate_trash msg,
                                 Size = msgSize_trash msg, Hash = hash, Content = []\<rparr>
                in consume_messages_trash Sum256 mailboxName msgs (emails @ [emailInfo]))))"

definition scanMailbox_trash ::
  "(string \<Rightarrow> string) \<Rightarrow> Message_trash ScanSession \<Rightarrow> string \<Rightarrow> (error + EmailInfo list) option" where
  "scanMailbox_trash Sum256 session mailboxName =
     (case selectResult session mailboxName of
        Inl err \<Rightarrow> Some (Inl (''error selecting mailbox: '' @ err))
      | Inr Messages \<Rightarrow>
          if Messages = 0 then Some (Inr [])
          else scan_batches (fetchResult session mailboxName)
                 (consume_messages_trash Sum256 mailboxName) 100 Messages 0 1 [])"

subsection \<open>Batches and their completion status\<close>

text \<open>
  The window of the \<open>k\<close>-th batch, in the arithmetic of \<open>uint32\<close>; \<open>batch\<close> is its
  retrieval. \<open>batches_complete \<dots> n\<close>: the first \<open>n\<close> batches are issued (the loop
  condition holds for each) and complete without error. \<open>drained \<dots> n\<close> are the records
  collected from the first \<open>n\<close> batches, the delivered messages of each having been
  consumed in order.
\<close>

definition batch_from :: "uint32 \<Rightarrow> nat \<Rightarrow> uint32" where
  "batch_from batchSize k = 1 + of_nat k * batchSize"

definition batch_to :: "uint32 \<Rightarrow> uint32 \<Rightarrow> nat \<Rightarrow> uint32" where
  "batch_to batchSize Messages k =
     (let to = batch_from batchSize k + batchSize - 1 in if to > Messages then Messages else to)"

definition batch :: "(nat \<Rightarrow> uint32 \<Rightarrow> uint32 \<Rightarrow> 'm FetchResult) \<Rightarrow> uint32 \<Rightarrow> uint32 \<Rightarrow> nat \<Rightarrow> 'm FetchResult" where
  "batch fetch batchSize Messages k =
     fetch k (batch_from batchSize k) (batch_to batchSize Messages k)"

definition batches_complete :: "(nat \<Rightarrow> uint32 \<Rightarrow> uint32 \<Rightarrow> 'm FetchResult) \<Rightarrow> uint32 \<Rightarrow> uint32 \<Rightarrow> nat \<Rightarrow> bool" where
  "batches_complete fetch batchSize Messages n =
     (\<forall>j<n. batch_from batchSize j \<le> Messages \<and> completion (batch fetch batchSize Messages j) = None)"

lemma batches_complete_0: "batches_complete fetch b M 0"
  by (simp add: batches_complete_def)

lemma batches_complete_Suc:
  "batches_complete fetch b M (Suc n) =
     (batches_complete fetch b M n \<and> batch_from b n \<le> M \<and> completion (batch fetch b M n) = None)"
  by (auto simp: batches_complete_def less_Suc_eq)

lemma batch_from_Suc: "batch_from b (Suc k) = batch_from b k + b"
  by (simp add: batch_from_def algebra_simps)

lemma scan_batches_step_ok:
  assumes "batch_from b k \<le> M" "completion (batch fetch b M k) = None"
  shows "scan_batches fetch consume b M k (batch_from b k) emails =
         scan_batches fetch consume b M (Suc k) (batch_from b (Suc k))
           (consume (delivered (batch fetch b M k)) emails)"
  using assms
  by (subst scan_batches.simps) (simp add: batch_def batch_to_def Let_def batch_from_Suc)

lemma scan_batches_step_err:
  assumes "batch_from b k \<le> M" "completion (batch fetch b M k) = Some err"
  shows "scan_batches fetch consume b M k (batch_from b k) emails =
         Some (Inl (''error fetching messages: '' @ err))"
  using assms
  by (subst scan_batches.simps) (simp add: batch_def batch_to_def Let_def)

lemma scan_batches_step_end:
  assumes "\<not> batch_from b k \<le> M"
  shows "scan_batches fetch consume b M k (batch_from b k) emails = Some (Inr emails)"
  using assms
  by (subst scan_batches.simps) simp

fun drained :: "(nat \<Rightarrow> uint32 \<Rightarrow> uint32 \<Rightarrow> 'm FetchResult) \<Rightarrow> ('m list \<Rightarrow> EmailInfo list \<Rightarrow> EmailInfo list)
    \<Rightarrow> uint32 \<Rightarrow> uint32 \<Rightarrow> nat \<Rightarrow> EmailInfo list" where
  "drained fetch consume b M 0 = []"
| "drained fetch consume b M (Suc n) =
     consume (delivered (batch fetch b M n)) (drained fetch consume b M n)"

lemma scan_batches_prefix:
  assumes "batches_complete fetch b M n"
  shows "scan_batches fetch consume b M 0 (batch_from b 0) [] =
         scan_batches fetch consume b M n (batch_from b n) (drained fetch consume b M n)"
  using assms
proof (induction n)
  case 0 show ?case by simp
next
  case (Suc n)
  have c: "batches_complete fetch b M n" using Suc.prems by (simp add: batches_complete_def)
  have "batch_from b n \<le> M" "completion (batch fetch b M n) = None"
    using Suc.prems by (simp_all add: batches_complete_def)
  from scan_batches_step_ok[OF this] Suc.IH[OF c] show ?case by simp
qed

lemma scan_batches_error:
  assumes "batches_complete fetch b M n" "batch_from b n \<le> M"
          "completion (batch fetch b M n) = Some err"
  shows "scan_batches fetch consume b M 0 1 [] = Some (Inl (''error fetching messages: '' @ err))"
  using scan_batches_prefix[OF assms(1), of consume] scan_batches_step_err[OF assms(2,3)]
  by (simp add: batch_from_def)

lemma scan_batches_success:
  assumes "batches_complete fetch b M n" "\<not> batch_from b n \<le> M"
  shows "scan_batches fetch consume b M 0 1 [] = Some (Inr (drained fetch consume b M n))"
  using scan_batches_prefix[OF assms(1), of consume] scan_batches_step_end[OF assms(2)]
  by (simp add: batch_from_def)

text \<open>
  Claim C8. Let the mailbox be selected with a message count other than zero, let the
  first \<open>n\<close> batches be issued and complete without error, and let batch \<open>n\<close> be issued.
  If its retrieval reports an error, then \<open>scanMailbox\<close> returns the error
  "error fetching messages", whatever the retrieval delivered before (all the records
  of the window included), and not the records collected so far; this holds in both
  tools. If instead the loop ends at batch \<open>n\<close>, the result holds the records of every
  batch, each batch drained completely.
\<close>

theorem scanMailbox_propagates_fetch_error:
  "(selectResult session name = Inr M \<and> M \<noteq> 0 \<and>
    batches_complete (fetchResult session name) 50 M n \<and> batch_from 50 n \<le> M \<and>
    completion (batch (fetchResult session name) 50 M n) = Some err
    \<longrightarrow> scanMailbox Sum256 session name = Some (Inl (''error fetching messages: '' @ err))) \<and>
   (selectResult session_t name = Inr M \<and> M \<noteq> 0 \<and>
    batches_complete (fetchResult session_t name) 100 M n \<and> batch_from 100 n \<le> M \<and>
    completion (batch (fetchResult session_t name) 100 M n) = Some err
    \<longrightarrow> scanMailbox_trash Sum256 session_t name
          = Some (Inl (''error fetching messages: '' @ err))) \<and>
   (selectResult session name = Inr M \<and> M \<noteq> 0 \<and>
    batches_complete (fetchResult session name) 50 M n \<and> \<not> batch_from 50 n \<le> M
    \<longrightarrow> scanMailbox Sum256 session name
          = Some (Inr (drained (fetchResult session name)
                         (consume_messages Sum256 name) 50 M n))) \<and>
   (selectResult session_t name = Inr M \<and> M \<noteq> 0 \<and>
    batches_complete (fetchResult session_t name) 100 M n \<and> \<not> batch_from 100 n \<le> M
    \<longrightarrow> scanMailbox_trash Sum256 session_t name
          = Some (Inr (drained (fetchResult session_t name)
                         (consume_messages_trash Sum256 name) 100 M n)))"
  by (auto simp: scanMailbox_def scanMailbox_trash_def scan_batches_error scan_batches_success)

text \<open>Concrete messages and sessions, for running the scanners.\<close>

definition example_message :: "uint32 \<Rightarrow> string \<Rightarrow> Message" where
  "example_message uid data =
     \<lparr>msgUid = uid, envelopeSubject = ''Invoice'', envelopeDate = 0, msgSize = 0,
      msgBody = [None, Some (Inl ''unexpected EOF''), Some (Inr data)]\<rparr>"

definition example_session :: "uint32 \<Rightarrow> uint32 \<Rightarrow> Message option ScanSession" where
  "example_session Messages failing =
     \<lparr>selectResult = (\<lambda>name. Inr Messages),
      fetchResult = (\<lambda>name k from to.
        \<lparr>delivered = [Some (example_message from ''Hello''), None, Some (example_message to [])],
         completion = (if to = failing then Some ''connection reset'' else None)\<rparr>)\<rparr>"

definition example_session_trash :: "uint32 \<Rightarrow> uint32 \<Rightarrow> Message_trash ScanSession" where
  "example_session_trash Messages failing =
     \<lparr>selectResult = (\<lambda>name. Inr Messages),
      fetchResult = (\<lambda>name k from to.
        \<lparr>delivered =
           [\<lparr>msgUid_trash = from, envelopeSubject_trash = ''Invoice'', envelopeDate_trash = 0,
             msgSize_trash = 5,
             parsedBody = Some (Inr \<lparr>headerSubject = ''Invoice'', headerDate = ''Mon'',
                                     nextParts = []\<rparr>)\<rparr>],
         completion = (if to = failing then Some ''connection reset'' else None)\<rparr>)\<rparr>"

theorem scanMailbox_propagates_fetch_error_witness:
  "scanMailbox (\<lambda>bytes. take 2 bytes) (example_session 3 3) ''INBOX''
     = Some (Inl ''error fetching messages: connection reset'') \<and>
   scanMailbox (\<lambda>bytes. take 2 bytes) (example_session 120 120) ''INBOX''
     = Some (Inl ''error fetching messages: connection reset'') \<and>
   scanMailbox_trash (\<lambda>bytes. take 2 bytes) (example_session_trash 150 150) ''INBOX''
     = Some (Inl ''error fetching messages: connection reset'') \<and>
   scanMailbox (\<lambda>bytes. take 2 bytes) (example_session 60 0) ''INBOX''
     = Some (Inr [\<lparr>Mailbox = ''INBOX'', Uid = 1, Subject = ''Invoice'', Date = 0, Size = 5,
                   Hash = ''4865'', Content = ''Hello'' @ replicate 95 (CHR 0x00)\<rparr>,
                  \<lparr>Mailbox = ''INBOX'', Uid = 51, Subject = ''Invoice'', Date = 0, Size = 5,
                   Hash = ''4865'', Content = ''Hello'' @ replicate 95 (CHR 0x00)\<rparr>]) \<and>
   scanMailbox_trash (\<lambda>bytes. take 2 bytes) (example_session_trash 150 0) ''INBOX''
     = Some (Inr [\<lparr>Mailbox = ''INBOX'', Uid = 1, Subject = ''Invoice'', Date = 0, Size = 5,
                   Hash = ''496e'', Content = []\<rparr>,
                  \<lparr>Mailbox = ''INBOX'', Uid = 101, Subject = ''Invoice'', Date = 0, Size = 5,
                   Hash = ''496e'', Content = []\<rparr>])"
proof -
  let ?H = "\<lambda>bytes :: string. take 2 bytes"
  note defs = example_session_def example_session_trash_def batches_complete_0
    batches_complete_Suc batch_def batch_from_def batch_to_def
  have a1: "selectResult (example_session 3 3) ''INBOX'' = Inr 3 \<and> (3 :: uint32) \<noteq> 0 \<and>
      batches_complete (fetchResult (example_session 3 3) ''INBOX'') 50 3 0 \<and>
      batch_from 50 0 \<le> (3 :: uint32) \<and>
      completion (batch (fetchResult (example_session 3 3) ''INBOX'') 50 3 0)
        = Some ''connection reset''"
    by (simp add: defs)
  have a2: "selectResult (example_session 120 120) ''INBOX'' = Inr 120 \<and> (120 :: uint32) \<noteq> 0 \<and>
      batches_complete (fetchResult (example_session 120 120) ''INBOX'') 50 120 (Suc (Suc 0)) \<and>
      batch_from 50 (Suc (Suc 0)) \<le> (120 :: uint32) \<and>
      completion (batch (fetchResult (example_session 120 120) ''INBOX'') 50 120 (Suc (Suc 0)))
        = Some ''connection reset''"
    by (simp add: defs)
  have a3: "selectResult (example_session_trash 150 150) ''INBOX'' = Inr 150 \<and>
      (150 :: uint32) \<noteq> 0 \<and>
      batches_complete (fetchResult (example_session_trash 150 150) ''INBOX'') 100 150 (Suc 0) \<and>
      batch_from 100 (Suc 0) \<le> (150 :: uint32) \<and>
      completion (batch (fetchResult (example_session_trash 150 150) ''INBOX'') 100 150 (Suc 0))
        = Some ''connection reset''"
    by (simp add: defs)
  have a4: "selectResult (example_session 60 0) ''INBOX'' = Inr 60 \<and> (60 :: uint32) \<noteq> 0 \<and>
      batches_complete (fetchResult (example_session 60 0) ''INBOX'') 50 60 (Suc (Suc 0)) \<and>
      \<not> batch_from 50 (Suc (Suc 0)) \<le> (60 :: uint32)"
    by (simp add: defs)
  have a5: "selectResult (example_session_trash 150 0) ''INBOX'' = Inr 150 \<and>
      (150 :: uint32) \<noteq> 0 \<and>
      batches_complete (fetchResult (example_session_trash 150 0) ''INBOX'') 100 150 (Suc (Suc 0)) \<and>
      \<not> batch_from 100 (Suc (Suc 0)) \<le> (150 :: uint32)"
    by (simp add: defs)
  have d4: "drained (fetchResult (example_session 60 0) ''INBOX'')
              (consume_messages ?H ''INBOX'') 50 60 (Suc (Suc 0))
     = [\<lparr>Mailbox = ''INBOX'', Uid = 1, Subject = ''Invoice'', Date = 0, Size = 5,
                   Hash = ''4865'', Content = ''Hello'' @ replicate 95 (CHR 0x00)\<rparr>,
                  \<lparr>Mailbox = ''INBOX'', Uid = 51, Subject = ''Invoice'', Date = 0, Size = 5,
                   Hash = ''4865'', Content = ''Hello'' @ replicate 95 (CHR 0x00)\<rparr>]"
    by code_simp
  have d5: "drained (fetchResult (example_session_trash 150 0) ''INBOX'')
              (consume_messages_trash ?H ''INBOX'') 100 150 (Suc (Suc 0))
     = [\<lparr>Mailbox = ''INBOX'', Uid = 1, Subject = ''Invoice'', Date = 0, Size = 5,
                   Hash = ''496e'', Content = []\<rparr>,
                  \<lparr>Mailbox = ''INBOX'', Uid = 101, Subject = ''Invoice'', Date = 0, Size = 5,
                   Hash = ''496e'', Content = []\<rparr>]"
    by code_simp
  note t = scanMailbox_propagates_fetch_error
  have r1: "scanMailbox ?H (example_session 3 3) ''INBOX''
              = Some (Inl ''error fetching messages: connection reset'')"
    using t [of "example_session 3 3" "''INBOX''" 3 0 "''connection reset''" ?H] a1 by simp
  have r2: "scanMailbox ?H (example_session 120 120) ''INBOX''
              = Some (Inl ''error fetching messages: connection reset'')"
    using t [of "example_session 120 120" "''INBOX''" 120 "Suc (Suc 0)" "''connection reset''" ?H]
          a2 by simp
  have r3: "scanMailbox_trash ?H (example_session_trash 150 150) ''INBOX''
              = Some (Inl ''error fetching messages: connection reset'')"
    using t [of _ "''INBOX''" 150 "Suc 0" "''connection reset''" ?H "example_session_trash 150 150"]
          a3 by simp
  have r4: "scanMailbox ?H (example_session 60 0) ''INBOX''
              = Some (Inr (drained (fetchResult (example_session 60 0) ''INBOX'')
                             (consume_messages ?H ''INBOX'') 50 60 (Suc (Suc 0))))"
    using t [of "example_session 60 0" "''INBOX''" 60 "Suc (Suc 0)" _ ?H] a4 by simp
  have r5: "scanMailbox_trash ?H (example_session_trash 150 0) ''INBOX''
              = Some (Inr (drained (fetchResult (example_session_trash 150 0) ''INBOX'')
                             (consume_messages_trash ?H ''INBOX'') 100 150 (Suc (Suc 0))))"
    using t [of _ "''INBOX''" 150 "Suc (Suc 0)" _ ?H "example_session_trash 150 0"] a5 by simp
  show ?thesis unfolding r1 r2 r3 r4 r5 d4 d5 by simp
qed

section \<open>The run of the second duplicates tool (\<open>main\<close>)\<close>

text \<open>
  \<open>connectIMAP\<close>: \<open>dial\<close> and \<open>login\<close> are the outcomes of \<open>DialTLS\<close> and \<open>Login\<close>
  (\<open>None\<close> for success), \<open>TARGET_FOLDER\<close> is the environment variable.
\<close>

definition connectIMAP :: "error option \<Rightarrow> error option \<Rightarrow> string \<Rightarrow> error + IMAPManager" where
  "connectIMAP dial login TARGET_FOLDER =
     (case dial of
        Some err \<Rightarrow> Inl (''connection error: '' @ err)
      | None \<Rightarrow>
          (case login of
             Some err \<Rightarrow> Inl (''login error: '' @ err)
           | None \<Rightarrow> Inr \<lparr>targetFolder = TARGET_FOLDER,
                            excludedFolders = connectIMAP_excludedFolders\<rparr>))"

text \<open>
  \<open>deleteEmail\<close> issues \<open>Select\<close>, \<open>UidStore\<close> and \<open>Expunge\<close>; the replies of the server
  to these calls (\<open>None\<close> for success) decide its result.
\<close>

record DeleteReplies =
  selectReply :: "error option"
  storeReply :: "error option"
  expungeReply :: "error option"

definition deleteEmail :: "DeleteReplies \<Rightarrow> EmailInfo \<Rightarrow> error option" where
  "deleteEmail replies email =
     (case selectReply replies of
        Some err \<Rightarrow> Some (''error selecting mailbox: '' @ err)
      | None \<Rightarrow>
          (case storeReply replies of
             Some err \<Rightarrow> Some (''error marking message as deleted: '' @ err)
           | None \<Rightarrow>
               (case expungeReply replies of
                  Some err \<Rightarrow> Some (''error expunging mailbox: '' @ err)
                | None \<Rightarrow> None)))"

text \<open>
  \<open>confirmActions\<close> reads one line and ignores a read error, keeping the data read.
\<close>

definition confirmActions ::
  "(string \<Rightarrow> string) \<Rightarrow> (string \<Rightarrow> string) \<Rightarrow> ReadResult list \<Rightarrow> bool" where
  "confirmActions TrimSpace ToLower stdin =
     (let input = (case stdin of
                     [] \<Rightarrow> []
                   | ReadError partial # rest \<Rightarrow> partial
                   | ReadLine line # rest \<Rightarrow> line)
      in TrimSpace (ToLower input) = ''yes'')"

text \<open>
  Everything a run depends on: the flags, the outcome of loading \<open>.env\<close>, the
  environment, the session (connection, login, folder listing, scanning, and the
  replies to the calls of the \<open>i\<close>-th \<open>deleteEmail\<close>), standard input, and the library
  functions that are parameters of the model.
\<close>

record World =
  w_dryRun :: bool
  w_autoMode :: bool
  w_dotenv :: "error option"
  w_dial :: "error option"
  w_login :: "error option"
  w_TARGET_FOLDER :: string
  w_listing :: ListResult
  w_session :: "Message option ScanSession"
  w_stdin :: "ReadResult list"
  w_deleteReplies :: "nat \<Rightarrow> DeleteReplies"
  w_ToLower :: "string \<Rightarrow> string"
  w_TrimSpace :: "string \<Rightarrow> string"
  w_Atoi :: "string \<Rightarrow> int option"
  w_Sum256 :: "string \<Rightarrow> string"
  w_range_order :: "(string \<times> EmailInfo list) list \<Rightarrow> (string \<times> EmailInfo list) list"

text \<open>
  How a run ends. \<open>Fatal\<close> is \<open>log.Fatal\<close>: the process exits with a non-zero status.
  The other outcomes are returns from \<open>main\<close>: nothing to do, the dry-run summary of the
  plan, the cancelled confirmation, and the completed execution with, for each planned
  action in order, the error it reported. \<open>Panicked\<close> is a run-time panic.
\<close>

datatype Outcome =
    Fatal error
  | NoActions
  | DryRunSummary "EmailInfo list"
  | Cancelled
  | Completed "(EmailInfo \<times> error option) list"
  | Panicked error

text \<open>
  The scan loop of \<open>main\<close>: a mailbox whose scan returns an error is logged and passed
  over. A scan that does not return leaves the loop without a result.
\<close>

fun scan_all :: "(string \<Rightarrow> string) \<Rightarrow> Message option ScanSession \<Rightarrow> string list
    \<Rightarrow> EmailInfo list \<Rightarrow> EmailInfo list option" where
  "scan_all Sum256 session [] allEmails = Some allEmails"
| "scan_all Sum256 session (mailbox # mailboxes) allEmails =
     (case scanMailbox Sum256 session mailbox of
        None \<Rightarrow> None
      | Some (Inl err) \<Rightarrow> scan_all Sum256 session mailboxes allEmails
      | Some (Inr emails) \<Rightarrow> scan_all Sum256 session mailboxes (allEmails @ emails))"

text \<open>
  The execution loop of \<open>main\<close>: the error of an action is printed and the loop goes on.
  \<open>report\<close> collects what was printed; \<open>i\<close> counts the actions.
\<close>

fun delete_all :: "(nat \<Rightarrow> DeleteReplies) \<Rightarrow> nat \<Rightarrow> EmailInfo list
    \<Rightarrow> (EmailInfo \<times> error option) list \<Rightarrow> (EmailInfo \<times> error option) list" where
  "delete_all replies i [] report = report"
| "delete_all replies i (email # plannedDeletes) report =
     delete_all replies (Suc i) plannedDeletes
       (report @ [(email, deleteEmail (replies i) email)])"

definition main :: "World \<Rightarrow> Outcome option" where
  "main w =
     (case w_dotenv w of
        Some err \<Rightarrow> Some (Fatal ''Error loading .env file'')
      | None \<Rightarrow>
     (case connectIMAP (w_dial w) (w_login w) (w_TARGET_FOLDER w) of
        Inl err \<Rightarrow> Some (Fatal (''Failed to connect to IMAP: '' @ err))
      | Inr imap \<Rightarrow>
     (case listMailboxes (w_ToLower w) imap (w_listing w) of
        Inl err \<Rightarrow> Some (Fatal (''Error listing mailboxes: '' @ err))
      | Inr mailboxes \<Rightarrow>
     (case scan_all (w_Sum256 w) (w_session w) mailboxes [] of
        None \<Rightarrow> None
      | Some allEmails \<Rightarrow>
     (let duplicateGroups = findDuplicates (w_range_order w) allEmails in
      case plan_groups (w_TrimSpace w) (w_Atoi w) (w_dryRun w) (w_autoMode w)
             duplicateGroups (w_stdin w) [] of
        Inl panic \<Rightarrow> Some (Panicked panic)
      | Inr (plannedDeletes, stdin') \<Rightarrow>
          if length plannedDeletes = 0 then Some NoActions
          else if w_dryRun w then Some (DryRunSummary plannedDeletes)
          else if \<not> confirmActions (w_TrimSpace w) (w_ToLower w) stdin' then Some Cancelled
          else Some (Completed (delete_all (w_deleteReplies w) 0 plannedDeletes [])))))))"

subsection \<open>Which errors end the run\<close>

text \<open>
  The setup errors: loading the environment, connecting, logging in, and listing the
  folders (the listing fails, or a target folder is configured and no folder matches).
\<close>

definition setup_error :: "World \<Rightarrow> error option" where
  "setup_error w =
     (case w_dotenv w of
        Some err \<Rightarrow> Some ''Error loading .env file''
      | None \<Rightarrow>
     (case w_dial w of
        Some err \<Rightarrow> Some (''Failed to connect to IMAP: connection error: '' @ err)
      | None \<Rightarrow>
     (case w_login w of
        Some err \<Rightarrow> Some (''Failed to connect to IMAP: login error: '' @ err)
      | None \<Rightarrow>
     (case listMailboxes (w_ToLower w)
             \<lparr>targetFolder = w_TARGET_FOLDER w, excludedFolders = connectIMAP_excludedFolders\<rparr>
             (w_listing w) of
        Inl err \<Rightarrow> Some (''Error listing mailboxes: '' @ err)
      | Inr mailboxes \<Rightarrow> None))))"

text \<open>What a mailbox contributes to the scan: its records, or nothing when its scan fails.\<close>

definition scanned :: "(string \<Rightarrow> string) \<Rightarrow> Message option ScanSession \<Rightarrow> string \<Rightarrow> EmailInfo list" where
  "scanned Sum256 session mailbox =
     (case scanMailbox Sum256 session mailbox of Some (Inr emails) \<Rightarrow> emails | _ \<Rightarrow> [])"

lemma findDuplicates_groups_nonempty:
  "\<forall>g\<in>set (findDuplicates range_order emails). Emails g \<noteq> []"
  by (auto simp: findDuplicates_def emit_groups_filter)

lemma plan_groups_no_panic:
  assumes "\<forall>g\<in>set groups. Emails g \<noteq> []"
  shows "plan_groups TrimSpace Atoi dryRun autoMode groups stdin planned \<noteq> Inl panic"
  using plan_groups_contributions [OF assms, of TrimSpace Atoi dryRun autoMode stdin planned]
  by auto

lemma scan_all_concat:
  "list_all (\<lambda>m. scanMailbox Sum256 session m \<noteq> None) mailboxes \<Longrightarrow>
   scan_all Sum256 session mailboxes allEmails =
     Some (allEmails @ concat (map (scanned Sum256 session) mailboxes))"
proof (induction mailboxes arbitrary: allEmails)
  case Nil then show ?case by simp
next
  case (Cons m ms)
  then obtain r where r: "scanMailbox Sum256 session m = Some r" by auto
  have "list_all (\<lambda>m. scanMailbox Sum256 session m \<noteq> None) ms" using Cons.prems by simp
  note ih = Cons.IH [OF this]
  show ?case by (cases r) (simp_all add: r ih scanned_def)
qed

lemma scan_all_returns:
  "list_all (\<lambda>m. scanMailbox Sum256 session m \<noteq> None) mailboxes \<Longrightarrow>
   scan_all Sum256 session mailboxes allEmails \<noteq> None"
  by (simp add: scan_all_concat)

lemma delete_all_report:
  "delete_all replies i plannedDeletes report =
     report @ map (\<lambda>(j, email). (email, deleteEmail (replies j) email))
                  (zip [i..<i + length plannedDeletes] plannedDeletes)"
proof (induction plannedDeletes arbitrary: i report)
  case Nil then show ?case by simp
next
  case (Cons e es)
  have "[i..<i + length (e # es)] = i # [Suc i..<Suc i + length es]"
    using upt_conv_Cons [of i "i + Suc (length es)"] by simp
  then show ?case using Cons.IH [of "Suc i" "report @ [(e, deleteEmail (replies i) e)]"] by simp
qed

lemma listMailboxes_subset:
  "listMailboxes ToLower im r = Inr mailboxes \<Longrightarrow> set mailboxes \<subseteq> set (listed r)"
  by (auto simp: listMailboxes_def listMailboxes_loop_filter Let_def split: option.splits if_splits)

lemma main_fatal_iff: "(main w = Some (Fatal e)) = (setup_error w = Some e)"
proof (cases "w_dotenv w")
  case (Some a) then show ?thesis by (auto simp: main_def setup_error_def)
next
  case None
  show ?thesis
  proof (cases "w_dial w")
    case (Some a) with None show ?thesis by (auto simp: main_def setup_error_def connectIMAP_def)
  next
    case dn: None
    show ?thesis
    proof (cases "w_login w")
      case (Some a)
      with None dn show ?thesis by (auto simp: main_def setup_error_def connectIMAP_def)
    next
      case ln: None
      let ?im = "\<lparr>targetFolder = w_TARGET_FOLDER w, excludedFolders = connectIMAP_excludedFolders\<rparr>"
      show ?thesis
      proof (cases "listMailboxes (w_ToLower w) ?im (w_listing w)")
        case (Inl err)
        with None dn ln show ?thesis by (auto simp: main_def setup_error_def connectIMAP_def)
      next
        case (Inr mailboxes)
        with None dn ln show ?thesis
          by (auto simp: main_def setup_error_def connectIMAP_def Let_def
                   split: option.splits sum.splits prod.splits)
      qed
    qed
  qed
qed

lemma main_no_panic: "main w \<noteq> Some (Panicked p)"
  using plan_groups_no_panic [OF findDuplicates_groups_nonempty]
  by (auto simp: main_def Let_def split: option.splits sum.splits prod.splits)

lemma main_returns:
  assumes "setup_error w = None"
      and "list_all (\<lambda>m. scanMailbox (w_Sum256 w) (w_session w) m \<noteq> None)
             (listed (w_listing w))"
  shows "main w \<noteq> None"
proof -
  let ?im = "\<lparr>targetFolder = w_TARGET_FOLDER w, excludedFolders = connectIMAP_excludedFolders\<rparr>"
  from assms(1) obtain mailboxes where
    s: "w_dotenv w = None" "w_dial w = None" "w_login w = None"
       "listMailboxes (w_ToLower w) ?im (w_listing w) = Inr mailboxes"
    by (auto simp: setup_error_def split: option.splits sum.splits)
  have "set mailboxes \<subseteq> set (listed (w_listing w))"
    using listMailboxes_subset [OF s(4)] .
  then have "list_all (\<lambda>m. scanMailbox (w_Sum256 w) (w_session w) m \<noteq> None) mailboxes"
    using assms(2) by (auto simp: list_all_iff)
  from scan_all_returns [OF this, of "[]"] obtain all where
    a: "scan_all (w_Sum256 w) (w_session w) mailboxes [] = Some all" by auto
  show ?thesis using s a
    by (auto simp: main_def connectIMAP_def Let_def split: sum.splits prod.splits)
qed

text \<open>
  Claim C5. A run ends in \<open>Fatal\<close> exactly when the setup fails, and with that error;
  nothing after the setup ends it that way, and no run panics. When the setup succeeds
  and every scan returns, \<open>main\<close> returns. In the scan loop a mailbox whose scan fails
  contributes nothing and the remaining mailboxes are still scanned: the records
  collected are those of the mailboxes whose scan succeeds, in order. In the execution
  loop every planned action is attempted, in order, and its error is reported, whether
  or not earlier actions failed.
\<close>

theorem main_aborts_only_on_setup_errors:
  "(main w = Some (Fatal e) \<longleftrightarrow> setup_error w = Some e) \<and>
   main w \<noteq> Some (Panicked p) \<and>
   (setup_error w = None \<and>
    list_all (\<lambda>m. scanMailbox (w_Sum256 w) (w_session w) m \<noteq> None) (listed (w_listing w))
    \<longrightarrow> main w \<noteq> None) \<and>
   (list_all (\<lambda>m. scanMailbox Sum256 session m \<noteq> None) mailboxes
    \<longrightarrow> scan_all Sum256 session mailboxes []
          = Some (concat (map (scanned Sum256 session) mailboxes))) \<and>
   delete_all replies 0 plannedDeletes []
     = map (\<lambda>(i, email). (email, deleteEmail (replies i) email))
           (zip [0..<length plannedDeletes] plannedDeletes)"
  using main_fatal_iff [of w e] main_no_panic [of w p] main_returns [of w]
        scan_all_concat [of Sum256 session mailboxes "[]"]
        delete_all_report [of replies 0 plannedDeletes "[]"]
  by simp

text \<open>A concrete run: the scan of \<open>INBOX\<close> fails, and so does the first planned action.\<close>

definition example_world :: World where
  "example_world =
     \<lparr>w_dryRun = False, w_autoMode = True, w_dotenv = None, w_dial = None, w_login = None,
      w_TARGET_FOLDER = [],
      w_listing = \<lparr>listed = [''INBOX'', ''Trash'', ''Work''], status = None\<rparr>,
      w_session =
        \<lparr>selectResult = (\<lambda>name. if name = ''INBOX'' then Inl ''NO mailbox locked'' else Inr 3),
         fetchResult = (\<lambda>name k from to.
           \<lparr>delivered = [Some (example_message 1 ''Hello''), Some (example_message 2 ''Hello''),
                         Some (example_message 3 ''Hello'')],
            completion = None\<rparr>)\<rparr>,
      w_stdin = [ReadLine ''yes''],
      w_deleteReplies = (\<lambda>i.
        \<lparr>selectReply = (if i = 0 then Some ''NO mailbox locked'' else None),
         storeReply = None, expungeReply = None\<rparr>),
      w_ToLower = ToLower_ascii, w_TrimSpace = TrimSpace_ascii, w_Atoi = Atoi_decimal,
      w_Sum256 = (\<lambda>bytes. take 2 bytes), w_range_order = (\<lambda>entries. entries)\<rparr>"

theorem main_aborts_only_on_setup_errors_witness:
  "setup_error example_world = None \<and>
   list_all (\<lambda>m. scanMailbox (w_Sum256 example_world) (w_session example_world) m \<noteq> None)
     (listed (w_listing example_world)) \<and>
   main example_world \<noteq> None \<and>
   main example_world =
     Some (Completed
       [(\<lparr>Mailbox = ''Work'', Uid = 2, Subject = ''Invoice'', Date = 0, Size = 5,
          Hash = ''4865'', Content = ''Hello'' @ replicate 95 (CHR 0x00)\<rparr>,
         Some ''error selecting mailbox: NO mailbox locked''),
        (\<lparr>Mailbox = ''Work'', Uid = 3, Subject = ''Invoice'', Date = 0, Size = 5,
          Hash = ''4865'', Content = ''Hello'' @ replicate 95 (CHR 0x00)\<rparr>,
         None)]) \<and>
   main (example_world\<lparr>w_dial := Some ''timeout''\<rparr>)
     = Some (Fatal ''Failed to connect to IMAP: connection error: timeout'') \<and>
   main (example_world\<lparr>w_TARGET_FOLDER := ''Archive''\<rparr>)
     = Some (Fatal ''Error listing mailboxes: no mailboxes found matching target folder: Archive'')"
proof -
  note t = main_aborts_only_on_setup_errors
  have s: "setup_error example_world = None" by code_simp
  have l: "list_all (\<lambda>m. scanMailbox (w_Sum256 example_world) (w_session example_world) m \<noteq> None)
     (listed (w_listing example_world))" by code_simp
  have r: "main example_world \<noteq> None"
    using t [of example_world] s l by blast
  have c: "main example_world =
     Some (Completed
       [(\<lparr>Mailbox = ''Work'', Uid = 2, Subject = ''Invoice'', Date = 0, Size = 5,
          Hash = ''4865'', Content = ''Hello'' @ replicate 95 (CHR 0x00)\<rparr>,
         Some ''error selecting mailbox: NO mailbox locked''),
        (\<lparr>Mailbox = ''Work'', Uid = 3, Subject = ''Invoice'', Date = 0, Size = 5,
          Hash = ''4865'', Content = ''Hello'' @ replicate 95 (CHR 0x00)\<rparr>,
         None)])" by code_simp
  have s1: "setup_error (example_world\<lparr>w_dial := Some ''timeout''\<rparr>)
              = Some ''Failed to connect to IMAP: connection error: timeout''" by code_simp
  have s2: "setup_error (example_world\<lparr>w_TARGET_FOLDER := ''Archive''\<rparr>)
              = Some ''Error listing mailboxes: no mailboxes found matching target folder: Archive''"
    by code_simp
  have f1: "main (example_world\<lparr>w_dial := Some ''timeout''\<rparr>)
     = Some (Fatal ''Failed to connect to IMAP: connection error: timeout'')"
    using t [of "example_world\<lparr>w_dial := Some ''timeout''\<rparr>"] s1 by blast
  have f2: "main (example_world\<lparr>w_TARGET_FOLDER := ''Archive''\<rparr>)
     = Some (Fatal ''Error listing mailboxes: no mailboxes found matching target folder: Archive'')"
    using t [of "example_world\<lparr>w_TARGET_FOLDER := ''Archive''\<rparr>"] s2 by blast
  from s l r c f1 f2 show ?thesis by blast
qed

section \<open>Deleting a mailbox with session recovery (\<open>deleteMailbox\<close>)\<close>










subsection \<open>The protocol of the calls\<close>






















section \<open>The library sort called by \<open>sortMailboxesByDepth\<close>\<close>






































































section \<open>Hierarchical deletion order (\<open>sortMailboxesByDepth\<close> of the folder deletion tool)\<close>

record MessageInfo =
  infoSubject :: string
  infoDate :: string

record MailboxInfo =
  Name :: string
  Messages :: uint32
  MessagesList :: "MessageInfo list"




text \<open>
  The same function with the slices placed in a store, to tell the copy from the
  argument. The store holds the backing arrays, addressed by their position; a slice
  is a window of one of them. \<open>append([]MailboxInfo{}, mailboxes...)\<close> allocates a new
  array holding the elements of \<open>mailboxes\<close> (an empty one for an empty argument), and
  \<open>sort.Slice\<close> permutes the window of the slice it is given, in place.
\<close>

type_synonym store = "MailboxInfo list list"

record slice =
  slice_array :: nat
  slice_offset :: nat
  slice_length :: nat

definition elements :: "store \<Rightarrow> slice \<Rightarrow> MailboxInfo list" where
  "elements st s = take (slice_length s) (drop (slice_offset s) (st ! slice_array s))"













subsection \<open>Children before parents\<close>







subsection \<open>The result is a rearranged copy\<close>




subsection \<open>Mailboxes of equal depth\<close>










end
